theory Spec2Isabelle
  imports Main "HOL-Library.Char_ord" "HOL-Library.List_Lexorder" "HOL-Library.Monad_Syntax"
begin

section \<open>Go values used by the auditor\<close>

text \<open>
  A Go \<^verbatim>\<open>error\<close> is modelled by its message, so that \<^verbatim>\<open>fmt.Errorf("prefix: %w", err)\<close>
  is the prefix followed by the message of \<^verbatim>\<open>err\<close>. A pointer \<^verbatim>\<open>*string\<close> of the SDK is a
  \<open>string option\<close> (\<open>None\<close> is nil); dereferencing nil panics, and a computation that may panic
  returns an \<open>option\<close> whose \<open>None\<close> is the panic. A map and a slice that the program builds
  itself can be nil as well: \<open>None\<close> is the nil map (the nil slice), \<open>Some\<close> a map (a slice)
  that has been made. Strings are byte strings, as Go's are.
\<close>

type_synonym error = string

type_synonym tagmap = "(string \<rightharpoonup> string) option"

type_synonym strings = "string list option"

definition make_map :: tagmap where
  "make_map = Some Map.empty"

text \<open>\<^verbatim>\<open>m[k] = v\<close>: an assignment to an entry of a nil map panics.\<close>

definition map_store :: "tagmap \<Rightarrow> string \<Rightarrow> string \<Rightarrow> tagmap option" where
  "map_store m k v = (case m of None \<Rightarrow> None | Some f \<Rightarrow> Some (Some (f(k \<mapsto> v))))"

text \<open>\<^verbatim>\<open>_, exists := m[k]\<close>: reading a nil map finds nothing.\<close>

definition map_exists :: "tagmap \<Rightarrow> string \<Rightarrow> bool" where
  "map_exists m k = (case m of None \<Rightarrow> False | Some f \<Rightarrow> f k \<noteq> None)"

definition make_slice :: "'a list option" where
  "make_slice = Some []"

text \<open>\<^verbatim>\<open>append(s, x)\<close>: appending to the nil slice gives a slice of one element.\<close>

definition go_append :: "'a list option \<Rightarrow> 'a \<Rightarrow> 'a list option" where
  "go_append s x = (case s of None \<Rightarrow> Some [x] | Some xs \<Rightarrow> Some (xs @ [x]))"

definition elems :: "'a list option \<Rightarrow> 'a list" where
  "elems s = (case s of None \<Rightarrow> [] | Some xs \<Rightarrow> xs)"

definition len :: "'a list option \<Rightarrow> nat" where
  "len s = length (elems s)"

text \<open>
  \<^verbatim>\<open>strings.ToLower\<close> on the bytes of a string: the letters A to Z are mapped to a to z and
  every other byte is kept. Go also lowers letters outside ASCII; the auditor only compares
  the result with the names ec2, s3, rds and lambda, and no character outside ASCII
  lowers to one of their letters.
\<close>

definition lower_char :: "char \<Rightarrow> char" where
  "lower_char c = (if CHR ''A'' \<le> c \<and> c \<le> CHR ''Z'' then char_of (of_char c + (32 :: nat)) else c)"

definition ToLower :: "string \<Rightarrow> string" where
  "ToLower s = map lower_char s"

section \<open>The data model of \<^verbatim>\<open>auditor.go\<close>\<close>

record ResourceInfo =
  ServiceName :: string
  ResourceID :: string
  ResourceType :: string
  Tags :: tagmap
  MissingTags :: strings

record AuditReport =
  Resources :: "ResourceInfo list option"

section \<open>The cloud services\<close>

text \<open>
  The types of the AWS SDK that the auditor reads, with the fields it reads. A slice of the
  SDK is only ranged over, so it is a list (ranging over nil and over an empty slice are the
  same).
\<close>

record Tag =
  Key :: "string option"
  Value :: "string option"

record Instance =
  InstanceId :: "string option"
  InstanceTags :: "Tag list"

record Reservation =
  Instances :: "Instance list"

record Bucket =
  Name :: "string option"

record DBInstance =
  DBInstanceIdentifier :: "string option"
  TagList :: "Tag list"

record FunctionConfiguration =
  FunctionName :: "string option"
  FunctionArn :: "string option"

text \<open>
  What the services answer during one audit: the four clients of the \<^verbatim>\<open>Auditor\<close> struct, as
  the answer to each request the auditor can make (\<open>Inl\<close> is the error of a failed call).
  \<open>LoadDefaultConfig\<close> is the error of loading the SDK configuration, if any.
\<close>

record aws =
  LoadDefaultConfig :: "error option"
  DescribeInstances :: "error + Reservation list"
  ListBuckets :: "error + Bucket list"
  GetBucketTagging :: "string option \<Rightarrow> error + Tag list"
  DescribeDBInstances :: "error + DBInstance list"
  ListFunctions :: "error + FunctionConfiguration list"
  ListTags :: "string option \<Rightarrow> error + (string \<rightharpoonup> string)"

datatype request =
    DescribeInstancesInput
  | ListBucketsInput
  | GetBucketTaggingInput "string option"
  | DescribeDBInstancesInput
  | ListFunctionsInput
  | ListTagsInput "string option"

section \<open>The providers\<close>

text \<open>
  A provider runs in a goroutine of its own. What the rest of the program sees of it is the
  sequence of its actions: a call to a service, a send on \<^verbatim>\<open>resourceChan\<close>, a send on
  \<^verbatim>\<open>errorChan\<close>, or a panic (a nil pointer dereference), which ends the process.
\<close>

datatype action =
    Call request
  | SendResource ResourceInfo
  | SendError error
  | Panic

text \<open>The loop \<^verbatim>\<open>for _, tag := range ... { tags[*tag.Key] = *tag.Value }\<close>.\<close>

fun collectTags :: "Tag list \<Rightarrow> tagmap \<Rightarrow> tagmap option" where
  "collectTags [] tags = Some tags"
| "collectTags (tag # rest) tags =
     (case Key tag of
        None \<Rightarrow> None
      | Some k \<Rightarrow>
          (case Value tag of
             None \<Rightarrow> None
           | Some v \<Rightarrow>
               (case map_store tags k v of
                  None \<Rightarrow> None
                | Some tags' \<Rightarrow> collectTags rest tags')))"

text \<open>
  The loop
  \<^verbatim>\<open>for _, required := range requiredTags { if _, exists := tags[required]; !exists { missingTags = append(missingTags, required) } }\<close>.
\<close>

fun findMissing :: "string list \<Rightarrow> tagmap \<Rightarrow> strings \<Rightarrow> strings" where
  "findMissing [] tags missingTags = missingTags"
| "findMissing (required # rest) tags missingTags =
     findMissing rest tags
       (if \<not> map_exists tags required then go_append missingTags required else missingTags)"

subsection \<open>EC2\<close>

definition ec2_resource :: "string list \<Rightarrow> Instance \<Rightarrow> ResourceInfo option" where
  "ec2_resource requiredTags inst =
     (case collectTags (InstanceTags inst) make_map of
        None \<Rightarrow> None
      | Some tags \<Rightarrow>
          (let missingTags = findMissing requiredTags tags make_slice in
           case InstanceId inst of
             None \<Rightarrow> None
           | Some ident \<Rightarrow>
               Some \<lparr>ServiceName = ''EC2'', ResourceID = ident, ResourceType = ''Instance'',
                     Tags = tags, MissingTags = missingTags\<rparr>))"

text \<open>The inner loop over the instances of one reservation; \<open>k\<close> is what the provider does after it.\<close>

fun ec2_instances :: "string list \<Rightarrow> Instance list \<Rightarrow> action list \<Rightarrow> action list" where
  "ec2_instances requiredTags [] k = k"
| "ec2_instances requiredTags (inst # rest) k =
     (case ec2_resource requiredTags inst of
        None \<Rightarrow> [Panic]
      | Some r \<Rightarrow> SendResource r # ec2_instances requiredTags rest k)"

fun ec2_reservations :: "string list \<Rightarrow> Reservation list \<Rightarrow> action list" where
  "ec2_reservations requiredTags [] = []"
| "ec2_reservations requiredTags (reservation # rest) =
     ec2_instances requiredTags (Instances reservation) (ec2_reservations requiredTags rest)"

definition auditEC2 :: "aws \<Rightarrow> string list \<Rightarrow> action list" where
  "auditEC2 env requiredTags =
     Call DescribeInstancesInput #
     (case DescribeInstances env of
        Inl err \<Rightarrow> [SendError (''failed to describe EC2 instances: '' @ err)]
      | Inr result \<Rightarrow> ec2_reservations requiredTags result)"

subsection \<open>S3\<close>

text \<open>
  One bucket, after \<^verbatim>\<open>GetBucketTagging\<close> has answered: the tags are read only when the call
  succeeded (\<^verbatim>\<open>if err == nil\<close>), and a failed call is not reported.
\<close>

definition s3_resource :: "aws \<Rightarrow> string list \<Rightarrow> Bucket \<Rightarrow> ResourceInfo option" where
  "s3_resource env requiredTags bucket =
     (case (case GetBucketTagging env (Name bucket) of
              Inl err \<Rightarrow> Some make_map
            | Inr tagSet \<Rightarrow> collectTags tagSet make_map) of
        None \<Rightarrow> None
      | Some tags \<Rightarrow>
          (let missingTags = findMissing requiredTags tags make_slice in
           case Name bucket of
             None \<Rightarrow> None
           | Some name \<Rightarrow>
               Some \<lparr>ServiceName = ''S3'', ResourceID = name, ResourceType = ''Bucket'',
                     Tags = tags, MissingTags = missingTags\<rparr>))"

fun s3_buckets :: "aws \<Rightarrow> string list \<Rightarrow> Bucket list \<Rightarrow> action list" where
  "s3_buckets env requiredTags [] = []"
| "s3_buckets env requiredTags (bucket # rest) =
     Call (GetBucketTaggingInput (Name bucket)) #
     (case s3_resource env requiredTags bucket of
        None \<Rightarrow> [Panic]
      | Some r \<Rightarrow> SendResource r # s3_buckets env requiredTags rest)"

definition auditS3 :: "aws \<Rightarrow> string list \<Rightarrow> action list" where
  "auditS3 env requiredTags =
     Call ListBucketsInput #
     (case ListBuckets env of
        Inl err \<Rightarrow> [SendError (''failed to list S3 buckets: '' @ err)]
      | Inr result \<Rightarrow> s3_buckets env requiredTags result)"

subsection \<open>RDS\<close>

definition rds_resource :: "string list \<Rightarrow> DBInstance \<Rightarrow> ResourceInfo option" where
  "rds_resource requiredTags inst =
     (case collectTags (TagList inst) make_map of
        None \<Rightarrow> None
      | Some tags \<Rightarrow>
          (let missingTags = findMissing requiredTags tags make_slice in
           case DBInstanceIdentifier inst of
             None \<Rightarrow> None
           | Some ident \<Rightarrow>
               Some \<lparr>ServiceName = ''RDS'', ResourceID = ident, ResourceType = ''DBInstance'',
                     Tags = tags, MissingTags = missingTags\<rparr>))"

fun rds_instances :: "string list \<Rightarrow> DBInstance list \<Rightarrow> action list" where
  "rds_instances requiredTags [] = []"
| "rds_instances requiredTags (inst # rest) =
     (case rds_resource requiredTags inst of
        None \<Rightarrow> [Panic]
      | Some r \<Rightarrow> SendResource r # rds_instances requiredTags rest)"

definition auditRDS :: "aws \<Rightarrow> string list \<Rightarrow> action list" where
  "auditRDS env requiredTags =
     Call DescribeDBInstancesInput #
     (case DescribeDBInstances env of
        Inl err \<Rightarrow> [SendError (''failed to describe RDS instances: '' @ err)]
      | Inr result \<Rightarrow> rds_instances requiredTags result)"

subsection \<open>Lambda\<close>

text \<open>
  The loop \<^verbatim>\<open>for key, value := range tagsOutput.Tags { tags[key] = value }\<close> stores every entry
  of the answer in the fresh map, whatever the order of the visit: the fresh map ends with
  the entries of the answer.
\<close>

definition copyTags :: "(string \<rightharpoonup> string) \<Rightarrow> tagmap \<Rightarrow> tagmap option" where
  "copyTags answer tags = (case tags of None \<Rightarrow> (if answer = Map.empty then Some None else None)
                                      | Some f \<Rightarrow> Some (Some (f ++ answer)))"

definition lambda_resource :: "string list \<Rightarrow> FunctionConfiguration \<Rightarrow> (string \<rightharpoonup> string) \<Rightarrow> ResourceInfo option" where
  "lambda_resource requiredTags function answer =
     (case copyTags answer make_map of
        None \<Rightarrow> None
      | Some tags \<Rightarrow>
          (let missingTags = findMissing requiredTags tags make_slice in
           case FunctionName function of
             None \<Rightarrow> None
           | Some name \<Rightarrow>
               Some \<lparr>ServiceName = ''Lambda'', ResourceID = name, ResourceType = ''Function'',
                     Tags = tags, MissingTags = missingTags\<rparr>))"

text \<open>
  A failed \<^verbatim>\<open>ListTags\<close> is sent on \<^verbatim>\<open>errorChan\<close> (the message names \<^verbatim>\<open>*function.FunctionName\<close>),
  and the loop goes on with the next function (\<^verbatim>\<open>continue\<close>).
\<close>

fun lambda_functions :: "aws \<Rightarrow> string list \<Rightarrow> FunctionConfiguration list \<Rightarrow> action list" where
  "lambda_functions env requiredTags [] = []"
| "lambda_functions env requiredTags (function # rest) =
     Call (ListTagsInput (FunctionArn function)) #
     (case ListTags env (FunctionArn function) of
        Inl err \<Rightarrow>
          (case FunctionName function of
             None \<Rightarrow> [Panic]
           | Some name \<Rightarrow>
               SendError (''failed to get tags for Lambda function '' @ name @ '': '' @ err) #
               lambda_functions env requiredTags rest)
      | Inr answer \<Rightarrow>
          (case lambda_resource requiredTags function answer of
             None \<Rightarrow> [Panic]
           | Some r \<Rightarrow> SendResource r # lambda_functions env requiredTags rest))"

definition auditLambda :: "aws \<Rightarrow> string list \<Rightarrow> action list" where
  "auditLambda env requiredTags =
     Call ListFunctionsInput #
     (case ListFunctions env of
        Inl err \<Rightarrow> [SendError (''failed to list Lambda functions: '' @ err)]
      | Inr result \<Rightarrow> lambda_functions env requiredTags result)"

subsection \<open>The goroutine of one requested service\<close>

text \<open>
  The body of \<^verbatim>\<open>go func(svc string)\<close> in \<^verbatim>\<open>AuditResources\<close>: the switch on
  \<^verbatim>\<open>strings.ToLower(svc)\<close> has no default case, so any other name does nothing.
\<close>

definition worker :: "aws \<Rightarrow> string list \<Rightarrow> string \<Rightarrow> action list" where
  "worker env requiredTags svc =
     (let s = ToLower svc in
      if s = ''ec2'' then auditEC2 env requiredTags
      else if s = ''s3'' then auditS3 env requiredTags
      else if s = ''rds'' then auditRDS env requiredTags
      else if s = ''lambda'' then auditLambda env requiredTags
      else [])"

section \<open>The coordinator \<^verbatim>\<open>AuditResources\<close>\<close>

text \<open>
  \<^verbatim>\<open>AuditResources\<close> starts one goroutine for every requested service, one more that waits
  for all of them (\<^verbatim>\<open>wg.Wait()\<close>) and then sends on \<^verbatim>\<open>done\<close>, and loops over a \<^verbatim>\<open>select\<close> of
  the three channels. The channels are unbuffered: a send happens together with its
  receive. The state of the call holds what is left to do for every goroutine, the report
  built so far, the requests the services have received so far, and whether the call is
  still in its loop, has returned, or the process has died in a panic.
\<close>

datatype status =
    Collecting
  | Returned "error + AuditReport"
  | Crashed

record state =
  tasks :: "action list list"
  report :: AuditReport
  calls :: "request list"
  status :: status

text \<open>
  One step of the program while the call is in its loop. A goroutine calls a service on its
  own. A send needs the loop to receive it: \<^verbatim>\<open>case resource := <-resourceChan\<close> appends to the
  report, \<^verbatim>\<open>case err := <-errorChan\<close> returns \<^verbatim>\<open>nil, err\<close>. \<^verbatim>\<open>case <-done\<close> needs every goroutine
  to have ended, and returns the report. Which of the possible steps is taken is up to the
  scheduler and to \<^verbatim>\<open>select\<close>. After the call has returned nothing receives any more.
\<close>

inductive step :: "state \<Rightarrow> state \<Rightarrow> bool" where
  call:
    "status s = Collecting \<Longrightarrow> i < length (tasks s) \<Longrightarrow> tasks s ! i = Call c # rest \<Longrightarrow>
     step s (s\<lparr>tasks := (tasks s)[i := rest], calls := calls s @ [c]\<rparr>)"
| recv_resource:
    "status s = Collecting \<Longrightarrow> i < length (tasks s) \<Longrightarrow> tasks s ! i = SendResource r # rest \<Longrightarrow>
     step s (s\<lparr>tasks := (tasks s)[i := rest],
               report := \<lparr>Resources = go_append (Resources (report s)) r\<rparr>\<rparr>)"
| recv_error:
    "status s = Collecting \<Longrightarrow> i < length (tasks s) \<Longrightarrow> tasks s ! i = SendError e # rest \<Longrightarrow>
     step s (s\<lparr>tasks := (tasks s)[i := rest], status := Returned (Inl e)\<rparr>)"
| recv_done:
    "status s = Collecting \<Longrightarrow> list_all (\<lambda>t. t = []) (tasks s) \<Longrightarrow>
     step s (s\<lparr>status := Returned (Inr (report s))\<rparr>)"
| panic:
    "status s = Collecting \<Longrightarrow> i < length (tasks s) \<Longrightarrow> tasks s ! i = Panic # rest \<Longrightarrow>
     step s (s\<lparr>status := Crashed\<rparr>)"

text \<open>The same steps as a function: the states that one step can reach.\<close>

definition task_steps :: "state \<Rightarrow> nat \<Rightarrow> state list" where
  "task_steps s i =
     (case tasks s ! i of
        [] \<Rightarrow> []
      | Call c # rest \<Rightarrow> [s\<lparr>tasks := (tasks s)[i := rest], calls := calls s @ [c]\<rparr>]
      | SendResource r # rest \<Rightarrow>
          [s\<lparr>tasks := (tasks s)[i := rest],
             report := \<lparr>Resources = go_append (Resources (report s)) r\<rparr>\<rparr>]
      | SendError e # rest \<Rightarrow> [s\<lparr>tasks := (tasks s)[i := rest], status := Returned (Inl e)\<rparr>]
      | Panic # rest \<Rightarrow> [s\<lparr>status := Crashed\<rparr>])"

definition successors :: "state \<Rightarrow> state list" where
  "successors s =
     (case status s of
        Collecting \<Rightarrow>
          concat (map (task_steps s) [0 ..< length (tasks s)]) @
          (if list_all (\<lambda>t. t = []) (tasks s) then [s\<lparr>status := Returned (Inr (report s))\<rparr>] else [])
      | Returned res \<Rightarrow> []
      | Crashed \<Rightarrow> [])"

text \<open>What is left to do: every step uses up an action or leaves the loop.\<close>

definition weight :: "state \<Rightarrow> nat" where
  "weight s = sum_list (map length (tasks s)) + (case status s of Collecting \<Rightarrow> 1 | Returned res \<Rightarrow> 0 | Crashed \<Rightarrow> 0)"

lemma weight_update:
  "i < length ts \<Longrightarrow> ts ! i = a # rest \<Longrightarrow>
   sum_list (map length ts) = Suc (sum_list (map length (ts[i := rest])))"
proof (induction ts arbitrary: i)
  case Nil
  then show ?case by simp
next
  case (Cons t ts)
  then show ?case by (cases i) auto
qed

lemma task_steps_iff:
  "s' \<in> set (task_steps s i) \<longleftrightarrow>
     (\<exists>c rest. tasks s ! i = Call c # rest \<and>
        s' = s\<lparr>tasks := (tasks s)[i := rest], calls := calls s @ [c]\<rparr>) \<or>
     (\<exists>r rest. tasks s ! i = SendResource r # rest \<and>
        s' = s\<lparr>tasks := (tasks s)[i := rest],
               report := \<lparr>Resources = go_append (Resources (report s)) r\<rparr>\<rparr>) \<or>
     (\<exists>e rest. tasks s ! i = SendError e # rest \<and>
        s' = s\<lparr>tasks := (tasks s)[i := rest], status := Returned (Inl e)\<rparr>) \<or>
     (\<exists>rest. tasks s ! i = Panic # rest \<and> s' = s\<lparr>status := Crashed\<rparr>)"
proof (cases "tasks s ! i")
  case Nil
  then show ?thesis by (simp add: task_steps_def)
next
  case (Cons a rest)
  then show ?thesis by (cases a) (auto simp: task_steps_def)
qed

lemma successors_iff: "s' \<in> set (successors s) \<longleftrightarrow> step s s'"
proof
  assume "s' \<in> set (successors s)"
  then have c: "status s = Collecting"
    by (cases "status s") (simp_all add: successors_def)
  with \<open>s' \<in> set (successors s)\<close> consider
      i where "i < length (tasks s)" and "s' \<in> set (task_steps s i)"
    | "list_all (\<lambda>t. t = []) (tasks s)" and "s' = s\<lparr>status := Returned (Inr (report s))\<rparr>"
    by (auto simp: successors_def split: if_splits)
  then show "step s s'"
  proof cases
    case 1
    then show ?thesis
      using c unfolding task_steps_iff
      by (auto intro: step.intros)
  next
    case 2
    then show ?thesis
      using c by (auto intro: step.recv_done)
  qed
next
  assume "step s s'"
  then show "s' \<in> set (successors s)"
  proof cases
    case (call i c rest)
    then have "s' \<in> set (task_steps s i)"
      by (simp add: task_steps_def)
    with call show ?thesis
      by (auto simp: successors_def)
  next
    case (recv_resource i r rest)
    then have "s' \<in> set (task_steps s i)"
      by (simp add: task_steps_def)
    with recv_resource show ?thesis
      by (auto simp: successors_def)
  next
    case (recv_error i e rest)
    then have "s' \<in> set (task_steps s i)"
      by (simp add: task_steps_def)
    with recv_error show ?thesis
      by (auto simp: successors_def)
  next
    case recv_done
    then show ?thesis
      by (simp add: successors_def)
  next
    case (panic i rest)
    then have "s' \<in> set (task_steps s i)"
      by (simp add: task_steps_def)
    with panic show ?thesis
      by (auto simp: successors_def)
  qed
qed

lemma step_weight:
  assumes "step s s'"
  shows "weight s' < weight s"
  using assms
proof cases
  case (call i c rest)
  then show ?thesis
    using weight_update [of i "tasks s" "Call c" rest] by (simp add: weight_def)
next
  case (recv_resource i r rest)
  then show ?thesis
    using weight_update [of i "tasks s" "SendResource r" rest] by (simp add: weight_def)
next
  case (recv_error i e rest)
  then show ?thesis
    using weight_update [of i "tasks s" "SendError e" rest] by (simp add: weight_def)
next
  case recv_done
  then show ?thesis
    by (simp add: weight_def)
next
  case (panic i rest)
  then show ?thesis
    by (simp add: weight_def)
qed

lemma successors_weight: "s' \<in> set (successors s) \<Longrightarrow> weight s' < weight s"
  by (simp add: successors_iff step_weight)

text \<open>
  Every state in which a run of the program from \<open>s\<close> can leave the loop, over all the
  orders in which the goroutines and the \<^verbatim>\<open>select\<close> may take their steps.
\<close>

function outcomes :: "state \<Rightarrow> state list" where
  "outcomes s =
     (case status s of
        Collecting \<Rightarrow> concat (map outcomes (successors s))
      | Returned res \<Rightarrow> [s]
      | Crashed \<Rightarrow> [s])"
  by pat_completeness auto
termination
  by (relation "measure weight") (simp_all add: successors_weight)

definition start :: "aws \<Rightarrow> string list \<Rightarrow> string list \<Rightarrow> state" where
  "start env services requiredTags =
     \<lparr>tasks = map (worker env requiredTags) services, report = \<lparr>Resources = None\<rparr>,
      calls = [], status = Collecting\<rparr>"

definition AuditResources :: "aws \<Rightarrow> string list \<Rightarrow> string list \<Rightarrow> state list" where
  "AuditResources env services requiredTags = outcomes (start env services requiredTags)"

section \<open>Output\<close>

text \<open>
  An \<^verbatim>\<open>io.Writer\<close> such as \<^verbatim>\<open>os.Stdout\<close>: the bytes it has accepted, and how many more it
  accepts (\<open>None\<close>: any number). A write that does not fit is cut short and fails, as a
  write to a full device does.
\<close>

record writer =
  written :: string
  room :: "nat option"

definition Write :: "writer \<Rightarrow> string \<Rightarrow> (nat \<times> error option) \<times> writer" where
  "Write w p =
     (case room w of
        None \<Rightarrow> ((length p, None), w\<lparr>written := written w @ p\<rparr>)
      | Some n \<Rightarrow>
          if length p \<le> n
          then ((length p, None), w\<lparr>written := written w @ p, room := Some (n - length p)\<rparr>)
          else ((n, Some ''no space left on device''),
                w\<lparr>written := written w @ take n p, room := Some 0\<rparr>))"

definition newline :: char where
  "newline = CHR 0x0A"

definition carriage_return :: char where
  "carriage_return = CHR 0x0D"

definition quote :: char where
  "quote = CHR 0x22"

text \<open>\<^verbatim>\<open>strings.Join(elems, sep)\<close>.\<close>

fun Join :: "string list \<Rightarrow> string \<Rightarrow> string" where
  "Join [] sep = []"
| "Join [x] sep = x"
| "Join (x # y # rest) sep = x @ sep @ Join (y # rest) sep"

subsection \<open>Text\<close>

text \<open>
  \<^verbatim>\<open>fmt.Fprintln\<close> and \<^verbatim>\<open>fmt.Fprintf\<close> format into a buffer and write it with one \<^verbatim>\<open>Write\<close>;
  \<^verbatim>\<open>OutputText\<close> drops what they return.
\<close>

definition Fprint :: "writer \<Rightarrow> string \<Rightarrow> writer" where
  "Fprint w s = snd (Write w s)"

text \<open>
  The verb \<^verbatim>\<open>%v\<close>: a map is printed as \<^verbatim>\<open>map[k:v k:v]\<close> with its keys in increasing order, a
  slice of strings as \<^verbatim>\<open>[a b]\<close>; a nil map and a nil slice print as the empty ones.
\<close>

definition entries :: "tagmap \<Rightarrow> (string \<times> string) list" where
  "entries m =
     (case m of
        None \<Rightarrow> []
      | Some f \<Rightarrow>
          map (\<lambda>k. (k, case f k of None \<Rightarrow> [] | Some v \<Rightarrow> v)) (sorted_list_of_set (dom f)))"

definition fmt_map :: "tagmap \<Rightarrow> string" where
  "fmt_map m = ''map['' @ Join (map (\<lambda>(k, v). k @ '':'' @ v) (entries m)) '' '' @ '']''"

definition fmt_strings :: "strings \<Rightarrow> string" where
  "fmt_strings s = ''['' @ Join (elems s) '' '' @ '']''"

definition text_resource :: "writer \<Rightarrow> ResourceInfo \<Rightarrow> writer" where
  "text_resource w0 resource =
     (let w1 = Fprint w0 ([newline] @ ''Service: '' @ ServiceName resource @ [newline]);
          w2 = Fprint w1 (''Resource ID: '' @ ResourceID resource @ [newline]);
          w3 = Fprint w2 (''Resource Type: '' @ ResourceType resource @ [newline]);
          w4 = Fprint w3 (''Tags: '' @ fmt_map (Tags resource) @ [newline]);
          w5 = (if len (MissingTags resource) > 0
                then Fprint w4 (''Missing Tags: '' @ fmt_strings (MissingTags resource) @ [newline])
                else w4)
      in Fprint w5 (''--------------------------'' @ [newline]))"

definition OutputText :: "AuditReport \<Rightarrow> writer \<Rightarrow> error option \<times> writer" where
  "OutputText r w0 =
     (let w1 = Fprint w0 (''AWS Resource Tag Audit Report'' @ [newline]);
          w2 = Fprint w1 (''=========================='' @ [newline])
      in (None, fold (\<lambda>resource w. text_resource w resource) (elems (Resources r)) w2))"

subsection \<open>JSON\<close>

text \<open>
  What \<^verbatim>\<open>encoding/json\<close> makes of the report, as a document: the fields under the names of
  their \<^verbatim>\<open>json\<close> tags and in the order of the struct, a map as an object with its keys in
  increasing order, a slice as an array, and a nil map or a nil slice as \<^verbatim>\<open>null\<close>.
\<close>

datatype json =
    JNull
  | JString string
  | JArray "json list"
  | JObject "(string \<times> json) list"

definition json_tags :: "tagmap \<Rightarrow> json" where
  "json_tags m = (case m of None \<Rightarrow> JNull | Some f \<Rightarrow> JObject (map (\<lambda>(k, v). (k, JString v)) (entries m)))"

definition json_strings :: "strings \<Rightarrow> json" where
  "json_strings s = (case s of None \<Rightarrow> JNull | Some xs \<Rightarrow> JArray (map JString xs))"

definition json_resource :: "ResourceInfo \<Rightarrow> json" where
  "json_resource resource =
     JObject [(''service'', JString (ServiceName resource)),
              (''resource_id'', JString (ResourceID resource)),
              (''resource_type'', JString (ResourceType resource)),
              (''tags'', json_tags (Tags resource)),
              (''missing_tags'', json_strings (MissingTags resource))]"

definition json_report :: "AuditReport \<Rightarrow> json" where
  "json_report r =
     JObject [(''resources'',
               case Resources r of None \<Rightarrow> JNull | Some rs \<Rightarrow> JArray (map json_resource rs))]"

text \<open>
  \<^verbatim>\<open>encoder.Encode(r)\<close> writes the text of the document with one \<^verbatim>\<open>Write\<close> and returns its
  error. The text that the encoder gives for a document (indented by two spaces, strings
  escaped, a line feed at the end) is the parameter \<open>encode\<close>.
\<close>

definition OutputJSON :: "(json \<Rightarrow> string) \<Rightarrow> AuditReport \<Rightarrow> writer \<Rightarrow> error option \<times> writer" where
  "OutputJSON encode r w = (case Write w (encode (json_report r)) of ((n, err), w') \<Rightarrow> (err, w'))"

subsection \<open>CSV\<close>

text \<open>
  \<^verbatim>\<open>csv.NewWriter(w)\<close> writes through a \<^verbatim>\<open>bufio.Writer\<close> of 4096 bytes: the bytes not yet
  passed on, the first error of the destination (every later operation returns it and does
  nothing), and the destination.
\<close>

record bufio =
  buffered :: string
  sticky :: "error option"
  dest :: writer

definition bufsize :: nat where
  "bufsize = 4096"

definition NewWriter :: "writer \<Rightarrow> bufio" where
  "NewWriter w = \<lparr>buffered = [], sticky = None, dest = w\<rparr>"

definition Available :: "bufio \<Rightarrow> nat" where
  "Available b = bufsize - length (buffered b)"

definition Flush :: "bufio \<Rightarrow> bufio" where
  "Flush b =
     (case sticky b of
        Some err \<Rightarrow> b
      | None \<Rightarrow>
          if buffered b = [] then b
          else
            (case Write (dest b) (buffered b) of
               ((n, err), w') \<Rightarrow>
                 (case (if n < length (buffered b) \<and> err = None then Some ''short write'' else err) of
                    None \<Rightarrow> b\<lparr>buffered := [], dest := w'\<rparr>
                  | Some e \<Rightarrow> b\<lparr>buffered := drop n (buffered b), sticky := Some e, dest := w'\<rparr>)))"

text \<open>
  \<^verbatim>\<open>WriteString\<close>: while the string does not fit and nothing has failed, a string that meets
  an empty buffer goes to the destination directly (\<^verbatim>\<open>os.Stdout\<close> is an \<^verbatim>\<open>io.StringWriter\<close>),
  otherwise the buffer is filled and flushed; what is left is buffered.
\<close>

definition budget :: "bufio \<Rightarrow> string \<Rightarrow> nat" where
  "budget b s =
     (case sticky b of
        Some err \<Rightarrow> 0
      | None \<Rightarrow> 2 * length s + (if buffered b = [] then 1 else 2))"

lemma Flush_budget:
  assumes "sticky b = None" and "buffered b \<noteq> []"
  shows "budget (Flush b) s < budget b s"
  using assms
  by (auto simp: Flush_def budget_def split: prod.splits option.splits if_splits)

function WriteString :: "bufio \<Rightarrow> string \<Rightarrow> bufio" where
  "WriteString b s =
     (if length s > Available b \<and> sticky b = None then
        (if buffered b = [] then
           (case Write (dest b) s of
              ((n, err), w') \<Rightarrow> WriteString (b\<lparr>sticky := err, dest := w'\<rparr>) (drop n s))
         else
           WriteString (Flush (b\<lparr>buffered := buffered b @ take (Available b) s\<rparr>))
             (drop (Available b) s))
      else
        (case sticky b of
           Some err \<Rightarrow> b
         | None \<Rightarrow> b\<lparr>buffered := buffered b @ s\<rparr>))"
  by pat_completeness auto
termination
proof (relation "measure (\<lambda>(b, s). budget b s)", goal_cases)
  case 1
  show ?case by simp
next
  case (2 b s x1 w' n err)
  then show ?case
    by (auto simp: budget_def Write_def split: option.splits if_splits)
next
  case (3 b s)
  let ?b = "b\<lparr>buffered := buffered b @ take (Available b) s\<rparr>"
  from 3 have "sticky ?b = None" and "buffered ?b \<noteq> []" by simp_all
  then have "budget (Flush ?b) (drop (Available b) s) < budget ?b (drop (Available b) s)"
    by (rule Flush_budget)
  also have "\<dots> \<le> budget b s"
    using 3 by (simp add: budget_def)
  finally show ?case by simp
qed

declare WriteString.simps [simp del]

definition WriteByte :: "bufio \<Rightarrow> char \<Rightarrow> bufio" where
  "WriteByte b c =
     (case sticky b of
        Some err \<Rightarrow> b
      | None \<Rightarrow>
          (let b' = (if Available b \<le> 0 then Flush b else b) in
           if Available b \<le> 0 \<and> sticky b' \<noteq> None then b'
           else b'\<lparr>buffered := buffered b' @ [c]\<rparr>))"

text \<open>
  \<^verbatim>\<open>fieldNeedsQuotes\<close> of \<^verbatim>\<open>encoding/csv\<close>, for the comma as delimiter: an empty field is not
  quoted; \<^verbatim>\<open>\.\<close> is; a field with a line feed, a carriage return, a quote or a comma is;
  and so is a field whose first character is a space in the sense of \<^verbatim>\<open>unicode.IsSpace\<close>
  (given here by the UTF-8 encodings of those characters).
\<close>

definition spaces :: "string list" where
  "spaces =
     [[CHR 0x09], [CHR 0x0A], [CHR 0x0B], [CHR 0x0C], [CHR 0x0D], [CHR 0x20],
      [CHR 0xC2, CHR 0x85], [CHR 0xC2, CHR 0xA0],
      [CHR 0xE1, CHR 0x9A, CHR 0x80],
      [CHR 0xE2, CHR 0x80, CHR 0x80], [CHR 0xE2, CHR 0x80, CHR 0x81],
      [CHR 0xE2, CHR 0x80, CHR 0x82], [CHR 0xE2, CHR 0x80, CHR 0x83],
      [CHR 0xE2, CHR 0x80, CHR 0x84], [CHR 0xE2, CHR 0x80, CHR 0x85],
      [CHR 0xE2, CHR 0x80, CHR 0x86], [CHR 0xE2, CHR 0x80, CHR 0x87],
      [CHR 0xE2, CHR 0x80, CHR 0x88], [CHR 0xE2, CHR 0x80, CHR 0x89],
      [CHR 0xE2, CHR 0x80, CHR 0x8A],
      [CHR 0xE2, CHR 0x80, CHR 0xA8], [CHR 0xE2, CHR 0x80, CHR 0xA9],
      [CHR 0xE2, CHR 0x80, CHR 0xAF], [CHR 0xE2, CHR 0x81, CHR 0x9F],
      [CHR 0xE3, CHR 0x80, CHR 0x80]]"

definition starts_with_space :: "string \<Rightarrow> bool" where
  "starts_with_space field = list_ex (\<lambda>sp. take (length sp) field = sp) spaces"

definition special :: "char \<Rightarrow> bool" where
  "special c = (c = quote \<or> c = carriage_return \<or> c = newline)"

definition fieldNeedsQuotes :: "string \<Rightarrow> bool" where
  "fieldNeedsQuotes field =
     (if field = [] then False
      else if field = [CHR 0x5C, CHR ''.''] then True
      else if list_ex (\<lambda>c. c = newline \<or> c = carriage_return \<or> c = quote \<or> c = CHR '','') field then True
      else starts_with_space field)"

text \<open>
  The loop of \<^verbatim>\<open>csv.Writer.Write\<close> over a quoted field: the bytes before the next quote,
  carriage return or line feed are written as they are, a quote is doubled, a carriage
  return and a line feed are kept (\<^verbatim>\<open>UseCRLF\<close> is false).
\<close>

function write_quoted :: "bufio \<Rightarrow> string \<Rightarrow> bufio" where
  "write_quoted b field =
     (if field = [] then b
      else
        (let b1 = WriteString b (takeWhile (\<lambda>c. \<not> special c) field) in
         case dropWhile (\<lambda>c. \<not> special c) field of
           [] \<Rightarrow> b1
         | c # rest \<Rightarrow>
             write_quoted (if c = quote then WriteString b1 [quote, quote] else WriteByte b1 c) rest))"
  by pat_completeness auto
termination
proof (relation "measure (\<lambda>(b, field). length field)", goal_cases)
  case 1
  show ?case by simp
next
  case (2 b field b1 c rest)
  have "length (dropWhile (\<lambda>c. \<not> special c) field) \<le> length field"
    by (rule length_dropWhile_le)
  moreover from 2 have "length rest < length (dropWhile (\<lambda>c. \<not> special c) field)"
    by simp
  ultimately show ?case by simp
qed

declare write_quoted.simps [simp del]

definition write_field :: "bufio \<Rightarrow> string \<Rightarrow> bufio" where
  "write_field b field =
     (if \<not> fieldNeedsQuotes field then WriteString b field
      else WriteByte (write_quoted (WriteByte b quote) field) quote)"

text \<open>The fields of one record, a comma before every field but the first.\<close>

fun write_fields :: "bufio \<Rightarrow> bool \<Rightarrow> string list \<Rightarrow> bufio" where
  "write_fields b first [] = b"
| "write_fields b first (field # rest) =
     write_fields (write_field (if first then b else WriteByte b (CHR '','')) field) False rest"

text \<open>
  \<^verbatim>\<open>csv.Writer.Write(record)\<close>. It returns at the first operation of the buffer that fails;
  as a failed buffer does nothing any more, that is the error of the buffer after the line
  feed.
\<close>

definition csv_Write :: "bufio \<Rightarrow> string list \<Rightarrow> error option \<times> bufio" where
  "csv_Write b row =
     (let b' = WriteByte (write_fields b True row) newline in (sticky b', b'))"

text \<open>
  One row. \<^verbatim>\<open>for k, v := range resource.Tags\<close> visits every key of the map once, in an order
  that Go does not fix: \<open>order\<close> is the order of this visit.
\<close>

definition visits :: "tagmap \<Rightarrow> string list \<Rightarrow> bool" where
  "visits m order = (distinct order \<and> set order = (case m of None \<Rightarrow> {} | Some f \<Rightarrow> dom f))"

definition lookup :: "tagmap \<Rightarrow> string \<Rightarrow> string" where
  "lookup m k = (case m of None \<Rightarrow> [] | Some f \<Rightarrow> (case f k of None \<Rightarrow> [] | Some v \<Rightarrow> v))"

definition csv_row :: "string list \<Rightarrow> ResourceInfo \<Rightarrow> string list" where
  "csv_row order resource =
     (let tagsStr = map (\<lambda>k. k @ '':'' @ lookup (Tags resource) k) order in
      [ServiceName resource, ResourceID resource, ResourceType resource,
       Join tagsStr ''; '', Join (elems (MissingTags resource)) ''; ''])"

fun csv_rows :: "bufio \<Rightarrow> ResourceInfo list \<Rightarrow> string list list \<Rightarrow> error option \<times> bufio" where
  "csv_rows b [] orders = (None, b)"
| "csv_rows b (resource # rest) orders =
     (case csv_Write b (csv_row (case orders of [] \<Rightarrow> [] | order # later \<Rightarrow> order) resource) of
        (Some err, b') \<Rightarrow> (Some (''error writing CSV row: '' @ err), b')
      | (None, b') \<Rightarrow> csv_rows b' rest (tl orders))"

text \<open>
  \<^verbatim>\<open>OutputCSV\<close>; \<open>orders\<close> gives the order in which the tags of each resource are visited. The
  deferred \<^verbatim>\<open>writer.Flush()\<close> runs on every return, and what it returns is dropped.
\<close>

definition OutputCSV :: "string list list \<Rightarrow> AuditReport \<Rightarrow> writer \<Rightarrow> error option \<times> writer" where
  "OutputCSV orders r w =
     (case csv_Write (NewWriter w) [''Service'', ''Resource ID'', ''Resource Type'', ''Tags'', ''Missing Tags''] of
        (Some err, b) \<Rightarrow> (Some (''error writing CSV header: '' @ err), dest (Flush b))
      | (None, b) \<Rightarrow>
          (case csv_rows b (elems (Resources r)) orders of
             (err, b') \<Rightarrow> (err, dest (Flush b'))))"

section \<open>The command \<^verbatim>\<open>audit\<close>\<close>

text \<open>
  How \<^verbatim>\<open>runAudit\<close> ends: in a panic, or by returning \<^verbatim>\<open>nil\<close> or an error; with the requests the
  services have received by then and what has become of the standard output.
\<close>

datatype ending =
    Panicked
  | Done "error option"

record finish =
  requests :: "request list"
  ending :: ending
  stdout_after :: writer

text \<open>The \<^verbatim>\<open>switch outputFormat\<close> of \<^verbatim>\<open>runAudit\<close>, which follows the audit.\<close>

definition present ::
  "(json \<Rightarrow> string) \<Rightarrow> string list list \<Rightarrow> string \<Rightarrow> AuditReport \<Rightarrow> writer \<Rightarrow> error option \<times> writer" where
  "present encode orders outputFormat r w =
     (if outputFormat = ''json'' then OutputJSON encode r w
      else if outputFormat = ''csv'' then OutputCSV orders r w
      else if outputFormat = ''text'' then OutputText r w
      else (Some (''unsupported output format: '' @ outputFormat), w))"

text \<open>
  \<^verbatim>\<open>runAudit\<close> after one run of \<^verbatim>\<open>AuditResources\<close> has left its loop (no outcome of
  \<^verbatim>\<open>AuditResources\<close> is still collecting, see \<open>outcomes_left_loop\<close>).
\<close>

definition after_audit ::
  "(json \<Rightarrow> string) \<Rightarrow> string list list \<Rightarrow> string \<Rightarrow> writer \<Rightarrow> state \<Rightarrow> finish" where
  "after_audit encode orders outputFormat w s =
     (case status s of
        Returned (Inl err) \<Rightarrow>
          \<lparr>requests = calls s, ending = Done (Some (''failed to audit resources: '' @ err)), stdout_after = w\<rparr>
      | Returned (Inr r) \<Rightarrow>
          (case present encode orders outputFormat r w of
             (err, w') \<Rightarrow> \<lparr>requests = calls s, ending = Done err, stdout_after = w'\<rparr>)
      | Crashed \<Rightarrow> \<lparr>requests = calls s, ending = Panicked, stdout_after = w\<rparr>
      | Collecting \<Rightarrow> \<lparr>requests = calls s, ending = Panicked, stdout_after = w\<rparr>)"

text \<open>
  \<^verbatim>\<open>runAudit\<close>, one result for every run of the audit. \<^verbatim>\<open>NewAuditor\<close> panics when the SDK
  configuration cannot be loaded.
\<close>

definition runAudit ::
  "aws \<Rightarrow> (json \<Rightarrow> string) \<Rightarrow> string list list \<Rightarrow> writer \<Rightarrow>
   string list \<Rightarrow> string list \<Rightarrow> string \<Rightarrow> finish list" where
  "runAudit env encode orders w services requiredTags outputFormat =
     (case LoadDefaultConfig env of
        Some err \<Rightarrow> [\<lparr>requests = [], ending = Panicked, stdout_after = w\<rparr>]
      | None \<Rightarrow> map (after_audit encode orders outputFormat w) (AuditResources env services requiredTags))"

text \<open>
  The flags of \<^verbatim>\<open>audit\<close> as given on the command line (\<open>None\<close>: the flag does not occur).
  \<^verbatim>\<open>main\<close> declares each flag with the variable it sets and the default of that variable:
  no required tags, the format text, the four services.
\<close>

record flags =
  required_tags :: "string list option"
  output_format :: "string option"
  services_flag :: "string list option"

definition requested_tags :: "flags \<Rightarrow> string list" where
  "requested_tags args = (case required_tags args of None \<Rightarrow> [] | Some t \<Rightarrow> t)"

definition requested_format :: "flags \<Rightarrow> string" where
  "requested_format args = (case output_format args of None \<Rightarrow> ''text'' | Some f \<Rightarrow> f)"

definition requested_services :: "flags \<Rightarrow> string list" where
  "requested_services args =
     (case services_flag args of None \<Rightarrow> [''ec2'', ''s3'', ''rds'', ''lambda''] | Some s \<Rightarrow> s)"

text \<open>
  The library \<^verbatim>\<open>cobra\<close>: a flag is changed when it occurs on the command line, and before
  \<^verbatim>\<open>Run\<close> the command checks the flags that were marked as required. Those that are not
  changed are named in the error
  \<^verbatim>\<open>required flag(s) "a", "b" not set\<close>, and \<^verbatim>\<open>Run\<close> is not called.
\<close>

definition Changed :: "flags \<Rightarrow> string \<Rightarrow> bool" where
  "Changed args name =
     (if name = ''required-tags'' then required_tags args \<noteq> None
      else if name = ''output'' then output_format args \<noteq> None
      else if name = ''services'' then services_flag args \<noteq> None
      else False)"

definition ValidateRequiredFlags :: "string list \<Rightarrow> flags \<Rightarrow> error option" where
  "ValidateRequiredFlags required args =
     (let missingFlagNames = filter (\<lambda>name. \<not> Changed args name) required in
      if missingFlagNames = [] then None
      else Some (''required flag(s) '' @ [quote] @
                 Join missingFlagNames ([quote] @ '', '' @ [quote]) @ [quote] @ '' not set''))"

text \<open>
  The exit status: \<^verbatim>\<open>log.Fatalf\<close> and \<^verbatim>\<open>os.Exit(1)\<close> give 1, a panic ends the process with
  status 2.
\<close>

definition exit_status :: "ending \<Rightarrow> nat" where
  "exit_status e = (case e of Panicked \<Rightarrow> 2 | Done None \<Rightarrow> 0 | Done (Some err) \<Rightarrow> 1)"

text \<open>
  \<^verbatim>\<open>main\<close>: \<^verbatim>\<open>auditCmd.MarkFlagRequired("required-tags")\<close>, then \<^verbatim>\<open>rootCmd.Execute()\<close>. An error
  of \<^verbatim>\<open>Execute\<close> is printed on the standard output and the process exits with status 1;
  otherwise \<^verbatim>\<open>Run\<close> calls \<^verbatim>\<open>runAudit\<close> with the three variables.
\<close>

definition main ::
  "aws \<Rightarrow> (json \<Rightarrow> string) \<Rightarrow> string list list \<Rightarrow> writer \<Rightarrow> flags \<Rightarrow> (finish \<times> nat) list" where
  "main env encode orders w args =
     (case ValidateRequiredFlags [''required-tags''] args of
        Some err \<Rightarrow>
          [(\<lparr>requests = [], ending = Done (Some err), stdout_after = Fprint w (err @ [newline])\<rparr>, 1)]
      | None \<Rightarrow>
          map (\<lambda>f. (f, exit_status (ending f)))
            (runAudit env encode orders w (requested_services args) (requested_tags args)
               (requested_format args)))"

section \<open>Notions used to state the properties\<close>

text \<open>
  A record whose map of tags has been made and whose missing tags are the required tags
  that are not keys of the map, in the order of the required tags.
\<close>

definition tagged :: "string list \<Rightarrow> ResourceInfo \<Rightarrow> bool" where
  "tagged requiredTags r =
     (case Tags r of
        None \<Rightarrow> False
      | Some m \<Rightarrow> MissingTags r = Some (filter (\<lambda>t. m t = None) requiredTags))"

text \<open>The actions that the goroutines of a state still have to do.\<close>

definition pending :: "state \<Rightarrow> action set" where
  "pending s = (\<Union>t \<in> set (tasks s). set t)"

text \<open>
  The errors that the goroutines of the requested services send on \<^verbatim>\<open>errorChan\<close> if they get
  that far, and whether one of them can panic.
\<close>

definition reported :: "aws \<Rightarrow> string list \<Rightarrow> string list \<Rightarrow> error set" where
  "reported env services requiredTags =
     {e. \<exists>svc \<in> set services. SendError e \<in> set (worker env requiredTags svc)}"

definition may_panic :: "aws \<Rightarrow> string list \<Rightarrow> string list \<Rightarrow> bool" where
  "may_panic env services requiredTags =
     (\<exists>svc \<in> set services. Panic \<in> set (worker env requiredTags svc))"

text \<open>The sends on \<^verbatim>\<open>resourceChan\<close> among the actions of a provider, and a failed call.\<close>

fun is_record :: "action \<Rightarrow> bool" where
  "is_record (SendResource r) = True"
| "is_record a = False"

fun failed :: "error + 'a \<Rightarrow> bool" where
  "failed (Inl e) = True"
| "failed (Inr x) = False"

text \<open>The error of \<^verbatim>\<open>cobra\<close> when \<^verbatim>\<open>--required-tags\<close> is not given.\<close>

definition flag_missing :: error where
  "flag_missing = ''required flag(s) '' @ [quote] @ ''required-tags'' @ [quote] @ '' not set''"

text \<open>
  Two service identifiers match case-insensitively when they have the same length and, at
  each position, the same character or the capital and the small form of one letter
  (\<^verbatim>\<open>A\<close> is 65 and \<^verbatim>\<open>a\<close> is 97). An identifier is known when it matches one of the four
  names that the \<^verbatim>\<open>switch\<close> of the goroutine has a case for.
\<close>

definition capital :: "char \<Rightarrow> bool" where
  "capital c = (CHR ''A'' \<le> c \<and> c \<le> CHR ''Z'')"

definition same_letter :: "char \<Rightarrow> char \<Rightarrow> bool" where
  "same_letter a b =
     (a = b \<or>
      (capital a \<and> (of_char b :: nat) = of_char a + 32) \<or>
      (capital b \<and> (of_char a :: nat) = of_char b + 32))"

definition ignoring_case :: "string \<Rightarrow> string \<Rightarrow> bool" where
  "ignoring_case s t = list_all2 same_letter s t"

definition known :: "string \<Rightarrow> bool" where
  "known svc = list_ex (ignoring_case svc) [''ec2'', ''s3'', ''rds'', ''lambda'']"

text \<open>
  After \<^verbatim>\<open>AuditResources\<close> has returned nothing receives from its channels. A goroutine
  that still has a send to do (after the calls before it) then waits for ever.
\<close>

fun blocks_forever :: "action list \<Rightarrow> bool" where
  "blocks_forever [] = False"
| "blocks_forever (Call c # rest) = blocks_forever rest"
| "blocks_forever (SendResource r # rest) = True"
| "blocks_forever (SendError e # rest) = True"
| "blocks_forever (Panic # rest) = False"

text \<open>
  A destination that never fails: the buffer only delays the bytes, and what has reached
  the destination followed by what is still buffered is what was written.
\<close>

definition healthy :: "bufio \<Rightarrow> bool" where
  "healthy b = (sticky b = None \<and> room (dest b) = None)"

definition pipe :: "bufio \<Rightarrow> string" where
  "pipe b = written (dest b) @ buffered b"

text \<open>
  The text of a field and of a row as \<^verbatim>\<open>encoding/csv\<close> writes them, the rows of a report
  (\<open>orders\<close> as in \<^verbatim>\<open>OutputCSV\<close>), and the header of \<^verbatim>\<open>OutputCSV\<close>.
\<close>

definition quoted :: "string \<Rightarrow> string" where
  "quoted field = concat (map (\<lambda>c. if c = quote then [quote, quote] else [c]) field)"

definition csv_field :: "string \<Rightarrow> string" where
  "csv_field field = (if fieldNeedsQuotes field then [quote] @ quoted field @ [quote] else field)"

definition csv_line :: "string list \<Rightarrow> string" where
  "csv_line row = Join (map csv_field row) '','' @ [newline]"

fun csv_table :: "ResourceInfo list \<Rightarrow> string list list \<Rightarrow> string list list" where
  "csv_table [] orders = []"
| "csv_table (resource # rest) orders =
     csv_row (case orders of [] \<Rightarrow> [] | order # later \<Rightarrow> order) resource # csv_table rest (tl orders)"

definition header :: "string list" where
  "header = [''Service'', ''Resource ID'', ''Resource Type'', ''Tags'', ''Missing Tags'']"

text \<open>
  Output that fits into the buffer: nothing is passed on before the deferred \<^verbatim>\<open>Flush\<close>, so
  no write of \<^verbatim>\<open>OutputCSV\<close> can fail, whatever the destination.
\<close>

definition fits :: "bufio \<Rightarrow> string \<Rightarrow> bool" where
  "fits b s = (sticky b = None \<and> length (buffered b) + length s \<le> bufsize)"

text \<open>The fields of a row with their commas, as \<^verbatim>\<open>csv.Writer.Write\<close> puts them before the line feed.\<close>

definition joined :: "bool \<Rightarrow> string list \<Rightarrow> string" where
  "joined first row =
     (if first then Join (map csv_field row) '','' else concat (map (\<lambda>f. '','' @ csv_field f) row))"

section \<open>An example account and an example report\<close>

text \<open>
  The instance of the README (tags Name and environment), one bucket whose tags cannot be
  read, a database service that cannot be listed, and two functions whose tags cannot be
  read.
\<close>

definition example_aws :: aws where
  "example_aws =
     \<lparr>LoadDefaultConfig = None,
      DescribeInstances =
        Inr [\<lparr>Instances =
               [\<lparr>InstanceId = Some ''i-1234567890abcdef0'',
                 InstanceTags =
                   [\<lparr>Key = Some ''Name'', Value = Some ''webserver''\<rparr>,
                    \<lparr>Key = Some ''environment'', Value = Some ''production''\<rparr>]\<rparr>]\<rparr>],
      ListBuckets = Inr [\<lparr>Name = Some ''logs''\<rparr>],
      GetBucketTagging = (\<lambda>b. Inl ''NoSuchTagSet''),
      DescribeDBInstances = Inl ''timeout'',
      ListFunctions =
        Inr [\<lparr>FunctionName = Some ''resize'', FunctionArn = Some ''arn:resize''\<rparr>,
             \<lparr>FunctionName = Some ''notify'', FunctionArn = Some ''arn:notify''\<rparr>],
      ListTags = (\<lambda>f. Inl ''AccessDenied'')\<rparr>"

text \<open>The record of that instance, given its missing tags, and the report that holds it.\<close>

definition example_record :: "string list \<Rightarrow> ResourceInfo" where
  "example_record missing =
     \<lparr>ServiceName = ''EC2'', ResourceID = ''i-1234567890abcdef0'', ResourceType = ''Instance'',
      Tags = Some [''Name'' \<mapsto> ''webserver'', ''environment'' \<mapsto> ''production''],
      MissingTags = Some missing\<rparr>"

definition example_report :: AuditReport where
  "example_report = \<lparr>Resources = Some [example_record [''project'', ''owner'']]\<rparr>"

text \<open>A standard output that takes every byte, and one that takes none.\<close>

definition stdout :: writer where
  "stdout = \<lparr>written = [], room = None\<rparr>"

definition full_device :: writer where
  "full_device = \<lparr>written = [], room = Some 0\<rparr>"


text \<open>The row of the README, with its last two fields in quotes.\<close>

definition claimed_row :: string where
  "claimed_row =
     ''EC2,i-1234567890abcdef0,Instance,'' @ [quote] @ ''Name:webserver; environment:production'' @ [quote] @
     '','' @ [quote] @ ''project; owner'' @ [quote]"

text \<open>
  Command lines: no flag at all; the format xml, for the instances and for the databases;
  the text format by default. The encoder of JSON plays no part in them.
\<close>

definition no_encoder :: "json \<Rightarrow> string" where
  "no_encoder j = []"

definition no_flags :: flags where
  "no_flags = \<lparr>required_tags = None, output_format = None, services_flag = None\<rparr>"

definition xml_flags :: flags where
  "xml_flags = \<lparr>required_tags = Some [''owner''], output_format = Some ''xml'', services_flag = Some [''EC2'']\<rparr>"

definition xml_rds_flags :: flags where
  "xml_rds_flags = \<lparr>required_tags = Some [''owner''], output_format = Some ''xml'', services_flag = Some [''rds'']\<rparr>"

definition text_flags :: flags where
  "text_flags = \<lparr>required_tags = Some [''environment'', ''project'', ''owner''], output_format = None,
                  services_flag = Some [''EC2'']\<rparr>"

section \<open>Lemmas\<close>

subsection \<open>The records of the providers\<close>

lemma findMissing_Some:
  "findMissing requiredTags (Some m) (Some acc) = Some (acc @ filter (\<lambda>t. m t = None) requiredTags)"
  by (induction requiredTags arbitrary: acc) (simp_all add: map_exists_def go_append_def)

lemma collectTags_Some:
  "collectTags ts (Some m) = Some tags \<Longrightarrow> \<exists>m'. tags = Some m'"
  by (induction ts arbitrary: m) (auto simp: map_store_def split: option.splits)

lemma ec2_resource_tagged: "ec2_resource req i = Some r \<Longrightarrow> tagged req r"
  by (auto simp: ec2_resource_def tagged_def make_map_def make_slice_def findMissing_Some Let_def
      split: option.splits dest!: collectTags_Some)

lemma ec2_instances_tagged:
  "SendResource r \<in> set (ec2_instances req is k) \<Longrightarrow> tagged req r \<or> SendResource r \<in> set k"
  by (induction "is") (auto split: option.splits dest: ec2_resource_tagged)

lemma ec2_reservations_tagged:
  "SendResource r \<in> set (ec2_reservations req rs) \<Longrightarrow> tagged req r"
  by (induction rs) (auto dest: ec2_instances_tagged)

lemma auditEC2_tagged: "SendResource r \<in> set (auditEC2 env req) \<Longrightarrow> tagged req r"
  by (auto simp: auditEC2_def split: sum.splits dest: ec2_reservations_tagged)

lemma s3_resource_tagged: "s3_resource env req b = Some r \<Longrightarrow> tagged req r"
  by (auto simp: s3_resource_def tagged_def make_map_def make_slice_def findMissing_Some Let_def
      split: option.splits sum.splits dest!: collectTags_Some)

lemma s3_buckets_tagged: "SendResource r \<in> set (s3_buckets env req bs) \<Longrightarrow> tagged req r"
  by (induction bs) (auto split: option.splits dest: s3_resource_tagged)

lemma auditS3_tagged: "SendResource r \<in> set (auditS3 env req) \<Longrightarrow> tagged req r"
  by (auto simp: auditS3_def split: sum.splits dest: s3_buckets_tagged)

lemma rds_resource_tagged: "rds_resource req i = Some r \<Longrightarrow> tagged req r"
  by (auto simp: rds_resource_def tagged_def make_map_def make_slice_def findMissing_Some Let_def
      split: option.splits dest!: collectTags_Some)

lemma rds_instances_tagged: "SendResource r \<in> set (rds_instances req is) \<Longrightarrow> tagged req r"
  by (induction "is") (auto split: option.splits dest: rds_resource_tagged)

lemma auditRDS_tagged: "SendResource r \<in> set (auditRDS env req) \<Longrightarrow> tagged req r"
  by (auto simp: auditRDS_def split: sum.splits dest: rds_instances_tagged)

lemma lambda_resource_tagged: "lambda_resource req f answer = Some r \<Longrightarrow> tagged req r"
  by (auto simp: lambda_resource_def copyTags_def tagged_def make_map_def make_slice_def findMissing_Some Let_def
      split: option.splits)

lemma lambda_functions_tagged: "SendResource r \<in> set (lambda_functions env req fs) \<Longrightarrow> tagged req r"
  by (induction fs) (auto split: option.splits sum.splits dest: lambda_resource_tagged)

lemma auditLambda_tagged: "SendResource r \<in> set (auditLambda env req) \<Longrightarrow> tagged req r"
  by (auto simp: auditLambda_def split: sum.splits dest: lambda_functions_tagged)

lemma worker_tagged: "SendResource r \<in> set (worker env req svc) \<Longrightarrow> tagged req r"
  by (auto simp: worker_def Let_def split: if_splits
      dest: auditEC2_tagged auditS3_tagged auditRDS_tagged auditLambda_tagged)

subsection \<open>Runs of the coordinator\<close>

declare outcomes.simps [simp del]

lemma outcomes_Collecting:
  "status s = Collecting \<Longrightarrow> outcomes s = concat (map outcomes (successors s))"
  by (subst outcomes.simps) simp

lemma outcomes_Returned: "status s = Returned res \<Longrightarrow> outcomes s = [s]"
  by (subst outcomes.simps) simp

lemma outcomes_Crashed: "status s = Crashed \<Longrightarrow> outcomes s = [s]"
  by (subst outcomes.simps) simp

lemma step_Collecting: "step s s' \<Longrightarrow> status s = Collecting"
  by (auto elim: step.cases)

lemma outcomes_invariant:
  assumes "s' \<in> set (outcomes s)" and "I s" and "\<And>a b. I a \<Longrightarrow> step a b \<Longrightarrow> I b"
  shows "I s'"
  using assms(1,2)
proof (induction s rule: outcomes.induct)
  case (1 s)
  show ?case
  proof (cases "status s")
    case Collecting
    with "1.prems"(1) obtain x where x: "x \<in> set (successors s)" and s': "s' \<in> set (outcomes x)"
      by (auto simp: outcomes_Collecting)
    from x have "step s x" by (simp add: successors_iff)
    with "1.prems"(2) have "I x" by (rule assms(3))
    with "1.IH" Collecting x s' show ?thesis by blast
  next
    case (Returned res)
    with "1.prems" show ?thesis by (simp add: outcomes_Returned)
  next
    case Crashed
    with "1.prems" show ?thesis by (simp add: outcomes_Crashed)
  qed
qed

lemma outcomes_left_loop: "s' \<in> set (outcomes s) \<Longrightarrow> status s' \<noteq> Collecting"
proof (induction s rule: outcomes.induct)
  case (1 s)
  show ?case
  proof (cases "status s")
    case Collecting
    with "1.prems" obtain x where "x \<in> set (successors s)" and "s' \<in> set (outcomes x)"
      by (auto simp: outcomes_Collecting)
    with "1.IH" Collecting show ?thesis by blast
  next
    case (Returned res)
    with "1.prems" show ?thesis by (simp add: outcomes_Returned)
  next
    case Crashed
    with "1.prems" show ?thesis by (simp add: outcomes_Crashed)
  qed
qed

lemma successors_exist:
  assumes "status s = Collecting"
  shows "successors s \<noteq> []"
proof (cases "list_all (\<lambda>t. t = []) (tasks s)")
  case True
  with assms show ?thesis by (simp add: successors_def)
next
  case False
  then obtain i where i: "i < length (tasks s)" and ne: "tasks s ! i \<noteq> []"
    by (auto simp: list_all_length)
  then obtain a rest where t: "tasks s ! i = a # rest"
    by (cases "tasks s ! i") auto
  have "\<exists>x. step s x"
  proof (cases a)
    case (Call c)
    with assms i t show ?thesis by (blast intro: step.call)
  next
    case (SendResource r)
    with assms i t show ?thesis by (blast intro: step.recv_resource)
  next
    case (SendError e)
    with assms i t show ?thesis by (blast intro: step.recv_error)
  next
    case Panic
    with assms i t show ?thesis by (blast intro: step.panic)
  qed
  then obtain x where "x \<in> set (successors s)"
    by (auto simp: successors_iff)
  then show ?thesis by auto
qed

lemma outcomes_exist: "outcomes s \<noteq> []"
proof (induction s rule: outcomes.induct)
  case (1 s)
  show ?case
  proof (cases "status s")
    case Collecting
    then obtain x xs where x: "successors s = x # xs"
      using successors_exist [of s] by (cases "successors s") auto
    then have "outcomes x \<noteq> []"
      using "1.IH" [of x] Collecting by simp
    with x Collecting show ?thesis
      by (simp add: outcomes_Collecting)
  next
    case (Returned res)
    then show ?thesis by (simp add: outcomes_Returned)
  next
    case Crashed
    then show ?thesis by (simp add: outcomes_Crashed)
  qed
qed

lemma pending_update:
  assumes "i < length ts" and "ts ! i = a # rest"
  shows "(\<Union>t \<in> set (ts[i := rest]). set t) \<subseteq> (\<Union>t \<in> set ts. set t)"
proof
  fix x assume "x \<in> (\<Union>t \<in> set (ts[i := rest]). set t)"
  then obtain t where t: "t \<in> set (ts[i := rest])" and x: "x \<in> set t" by auto
  from t have "t = rest \<or> t \<in> set ts"
    by (auto dest: set_update_subset_insert [THEN subsetD])
  then show "x \<in> (\<Union>t \<in> set ts. set t)"
  proof
    assume "t = rest"
    with x assms have "x \<in> set (ts ! i)" by simp
    with assms(1) show ?thesis by (auto intro: nth_mem)
  next
    assume "t \<in> set ts"
    with x show ?thesis by auto
  qed
qed

lemma step_pending: "step s s' \<Longrightarrow> pending s' \<subseteq> pending s"
  by (erule step.cases) (auto simp: pending_def dest: pending_update [THEN subsetD])

text \<open>An action that is not the one taken is still to do.\<close>

lemma pending_kept:
  assumes "x \<in> (\<Union>t \<in> set ts. set t)" and "i < length ts" and "ts ! i = a # rest" and "x \<noteq> a"
  shows "x \<in> (\<Union>t \<in> set (ts[i := rest]). set t)"
proof -
  from assms(1) obtain t where "t \<in> set ts" and "x \<in> set t" by auto
  then obtain j where j: "j < length ts" and x: "x \<in> set (ts ! j)"
    by (metis in_set_conv_nth)
  show ?thesis
  proof (cases "j = i")
    case True
    with x assms have "x \<in> set rest" by simp
    moreover have "rest \<in> set (ts[i := rest])"
      using assms(2) by (simp add: set_update_memI)
    ultimately show ?thesis by blast
  next
    case False
    with j have "(ts[i := rest]) ! j = ts ! j" and "j < length (ts[i := rest])" by simp_all
    then have "ts ! j \<in> set (ts[i := rest])" by (metis nth_mem)
    with x show ?thesis by blast
  qed
qed

lemma head_pending:
  assumes "i < length (tasks s)" and "tasks s ! i = a # rest"
  shows "a \<in> pending s"
proof -
  have "tasks s ! i \<in> set (tasks s)" using assms(1) by (rule nth_mem)
  moreover have "a \<in> set (tasks s ! i)" using assms(2) by simp
  ultimately show ?thesis unfolding pending_def by blast
qed

lemma error_is_fatal:
  assumes out: "s' \<in> set (outcomes s)"
    and c: "status s = Collecting"
    and e: "SendError e0 \<in> pending s"
  shows "status s' = Crashed \<or> (\<exists>e. status s' = Returned (Inl e) \<and> SendError e \<in> pending s)"
proof -
  define I where "I = (\<lambda>x. pending x \<subseteq> pending s \<and>
     ((status x = Collecting \<and> SendError e0 \<in> pending x) \<or> status x = Crashed \<or>
      (\<exists>e. status x = Returned (Inl e) \<and> SendError e \<in> pending s)))"
  have "I s" using c e by (simp add: I_def)
  moreover have "I b" if "I a" and "step a b" for a b
  proof -
    from that(2) have ca: "status a = Collecting" by (rule step_Collecting)
    with that(1) have pa: "pending a \<subseteq> pending s" and ea: "SendError e0 \<in> pending a"
      by (auto simp: I_def)
    from that(2) have pb: "pending b \<subseteq> pending a" by (rule step_pending)
    from that(2) show ?thesis
    proof cases
      case (call i c rest)
      with ea have "SendError e0 \<in> pending b"
        using pending_kept [of "SendError e0" "tasks a" i "Call c" rest]
        by (simp add: pending_def)
      with call pa pb show ?thesis by (auto simp: I_def)
    next
      case (recv_resource i r rest)
      with ea have "SendError e0 \<in> pending b"
        using pending_kept [of "SendError e0" "tasks a" i "SendResource r" rest]
        by (simp add: pending_def)
      with recv_resource pa pb show ?thesis by (auto simp: I_def)
    next
      case (recv_error i e rest)
      then have "SendError e \<in> pending a"
        by (auto intro: head_pending)
      with recv_error pa pb show ?thesis by (auto simp: I_def)
    next
      case recv_done
      with ea show ?thesis by (auto simp: pending_def list_all_iff)
    next
      case (panic i rest)
      with pa pb show ?thesis by (auto simp: I_def)
    qed
  qed
  ultimately have "I s'" using out outcomes_invariant [of s' s I] by blast
  moreover have "status s' \<noteq> Collecting" using out by (rule outcomes_left_loop)
  ultimately show ?thesis by (auto simp: I_def)
qed

lemma no_panic_no_crash:
  assumes out: "s' \<in> set (outcomes s)"
    and "status s \<noteq> Crashed"
    and "Panic \<notin> pending s"
  shows "status s' \<noteq> Crashed"
proof -
  define I where "I = (\<lambda>x. Panic \<notin> pending x \<and> status x \<noteq> Crashed)"
  have "I s" using assms by (simp add: I_def)
  moreover have "I b" if "I a" and "step a b" for a b
  proof -
    from that(2) have pb: "pending b \<subseteq> pending a" by (rule step_pending)
    from that(2) show ?thesis
    proof cases
      case (panic i rest)
      then have "Panic \<in> pending a" by (auto intro: head_pending)
      with that(1) show ?thesis by (simp add: I_def)
    qed (use that(1) pb in \<open>auto simp: I_def\<close>)
  qed
  ultimately have "I s'" using out outcomes_invariant [of s' s I] by blast
  then show ?thesis by (simp add: I_def)
qed

lemma pending_start: "pending (start env services req) = (\<Union>svc \<in> set services. set (worker env req svc))"
  by (simp add: pending_def start_def)

subsection \<open>The example account\<close>

lemmas worker_simps = worker_def ToLower_def lower_char_def char_of_eq_iff
  auditEC2_def auditS3_def auditRDS_def auditLambda_def
  ec2_resource_def s3_resource_def rds_resource_def lambda_resource_def copyTags_def
  make_map_def make_slice_def map_store_def map_exists_def go_append_def

lemma example_ec2:
  "worker example_aws requiredTags ''EC2'' =
     [Call DescribeInstancesInput,
      SendResource (example_record (filter (\<lambda>t. t \<noteq> ''Name'' \<and> t \<noteq> ''environment'') requiredTags))]"
proof -
  have "findMissing requiredTags (Some [''Name'' \<mapsto> ''webserver'', ''environment'' \<mapsto> ''production'']) (Some [])
      = Some (filter (\<lambda>t. t \<noteq> ''Name'' \<and> t \<noteq> ''environment'') requiredTags)"
    by (auto simp: findMissing_Some intro!: filter_cong)
  then show ?thesis
    by (simp add: worker_simps example_aws_def example_record_def)
qed

lemmas run_simps = AuditResources_def start_def outcomes_Collecting outcomes_Returned outcomes_Crashed
  successors_def task_steps_def

subsection \<open>A failed call for one resource\<close>

lemma findMissing_empty:
  "findMissing requiredTags make_map make_slice = Some requiredTags"
  by (simp add: make_map_def make_slice_def findMissing_Some)

lemma s3_resource_degraded:
  assumes "Name bucket = Some name" and "GetBucketTagging env (Some name) = Inl err"
  shows "s3_resource env requiredTags bucket =
           Some \<lparr>ServiceName = ''S3'', ResourceID = name, ResourceType = ''Bucket'',
                 Tags = Some Map.empty, MissingTags = Some requiredTags\<rparr>"
  using assms by (simp add: s3_resource_def findMissing_empty) (simp add: make_map_def)

lemma s3_buckets_degraded:
  assumes "bucket \<in> set buckets" and "Name bucket = Some name"
    and "GetBucketTagging env (Some name) = Inl err"
    and "Panic \<notin> set (s3_buckets env requiredTags buckets)"
  shows "SendResource \<lparr>ServiceName = ''S3'', ResourceID = name, ResourceType = ''Bucket'',
                        Tags = Some Map.empty, MissingTags = Some requiredTags\<rparr>
           \<in> set (s3_buckets env requiredTags buckets)"
  using assms(1,4)
proof (induction buckets)
  case Nil
  then show ?case by simp
next
  case (Cons b bs)
  show ?case
  proof (cases "b = bucket")
    case True
    with assms(2,3) show ?thesis
      by (simp add: s3_resource_degraded)
  next
    case False
    with Cons show ?thesis
      by (auto split: option.splits)
  qed
qed

lemma s3_buckets_silent: "SendError e \<notin> set (s3_buckets env requiredTags buckets)"
  by (induction buckets) (auto split: option.splits)

lemma s3_buckets_count:
  "Panic \<notin> set (s3_buckets env requiredTags buckets) \<Longrightarrow>
   length (filter is_record (s3_buckets env requiredTags buckets)) = length buckets"
  by (induction buckets) (auto split: option.splits)

lemma lambda_functions_error:
  assumes "fn \<in> set fns" and "FunctionName fn = Some name"
    and "ListTags env (FunctionArn fn) = Inl err"
    and "Panic \<notin> set (lambda_functions env requiredTags fns)"
  shows "SendError (''failed to get tags for Lambda function '' @ name @ '': '' @ err)
           \<in> set (lambda_functions env requiredTags fns)"
  using assms(1,4)
proof (induction fns)
  case Nil
  then show ?case by simp
next
  case (Cons f fs)
  show ?case
  proof (cases "f = fn")
    case True
    with assms(2,3) show ?thesis by simp
  next
    case False
    with Cons show ?thesis
      by (auto split: option.splits sum.splits)
  qed
qed

lemma lambda_functions_count:
  "Panic \<notin> set (lambda_functions env requiredTags fns) \<Longrightarrow>
   length (filter is_record (lambda_functions env requiredTags fns))
     = length (filter (\<lambda>f. \<not> failed (ListTags env (FunctionArn f))) fns)"
  by (induction fns) (auto split: option.splits sum.splits)

lemma worker_lambda: "ToLower svc = ''lambda'' \<Longrightarrow> worker env requiredTags svc = auditLambda env requiredTags"
  by (simp add: worker_def)

lemma eq_char_of_iff: "c = char_of n \<longleftrightarrow> take_bit 8 n = of_char c"
  using char_of_eq_iff [of n c] by (simp add: eq_commute)

lemmas lower_simps = ToLower_def lower_char_def char_of_eq_iff eq_char_of_iff

lemma example_lambda:
  "worker example_aws requiredTags ''Lambda'' =
     [Call ListFunctionsInput,
      Call (ListTagsInput (Some ''arn:resize'')),
      SendError ''failed to get tags for Lambda function resize: AccessDenied'',
      Call (ListTagsInput (Some ''arn:notify'')),
      SendError ''failed to get tags for Lambda function notify: AccessDenied'']"
  by (simp add: worker_simps example_aws_def)

lemma example_s3:
  "worker example_aws requiredTags ''s3'' =
     [Call ListBucketsInput,
      Call (GetBucketTaggingInput (Some ''logs'')),
      SendResource \<lparr>ServiceName = ''S3'', ResourceID = ''logs'', ResourceType = ''Bucket'',
        Tags = Some Map.empty, MissingTags = Some requiredTags\<rparr>]"
  using findMissing_empty [of requiredTags]
  by (simp add: worker_simps example_aws_def)

subsection \<open>Service identifiers\<close>

lemma capital_le: "capital a \<Longrightarrow> (of_char a :: nat) \<le> 90"
  by (simp add: capital_def less_eq_char_def)

lemma lower_char_same_letter:
  assumes "\<not> capital b"
  shows "lower_char a = b \<longleftrightarrow> same_letter a b"
proof (cases "capital a")
  case True
  then have l: "lower_char a = char_of (of_char a + (32 :: nat))"
    by (simp add: lower_char_def capital_def)
  have m: "(of_char a + (32 :: nat)) mod 256 = of_char a + 32"
    using capital_le [OF True] by simp
  show ?thesis
  proof
    assume "lower_char a = b"
    with l have "(of_char b :: nat) = of_char (char_of (of_char a + (32 :: nat)))" by simp
    then have "(of_char b :: nat) = of_char a + 32" using m by simp
    with True show "same_letter a b" by (simp add: same_letter_def)
  next
    assume "same_letter a b"
    with assms True have "(of_char b :: nat) = of_char a + 32"
      by (auto simp: same_letter_def)
    then have "char_of (of_char a + (32 :: nat)) = char_of (of_char b :: nat)" by simp
    with l show "lower_char a = b" by simp
  qed
next
  case False
  then have "lower_char a = a"
    by (auto simp: lower_char_def capital_def)
  with assms False show ?thesis
    by (auto simp: same_letter_def)
qed

lemma ToLower_ignoring_case:
  "\<forall>b \<in> set t. \<not> capital b \<Longrightarrow> ToLower s = t \<longleftrightarrow> ignoring_case s t"
proof (induction s arbitrary: t)
  case Nil
  then show ?case by (auto simp: ToLower_def ignoring_case_def)
next
  case (Cons a s)
  show ?case
  proof (cases t)
    case Nil
    then show ?thesis by (simp add: ToLower_def ignoring_case_def)
  next
    case (Cons b t')
    with Cons.prems have b: "\<not> capital b" and t': "\<forall>b \<in> set t'. \<not> capital b" by simp_all
    from Cons.IH [OF t'] have "map lower_char s = t' \<longleftrightarrow> list_all2 same_letter s t'"
      by (simp add: ToLower_def ignoring_case_def)
    with lower_char_same_letter [OF b, of a] Cons show ?thesis
      by (simp add: ToLower_def ignoring_case_def)
  qed
qed

lemma ToLower_ec2: "ToLower svc = ''ec2'' \<longleftrightarrow> ignoring_case svc ''ec2''"
  by (rule ToLower_ignoring_case) (simp add: capital_def)

lemma ToLower_s3: "ToLower svc = ''s3'' \<longleftrightarrow> ignoring_case svc ''s3''"
  by (rule ToLower_ignoring_case) (simp add: capital_def)

lemma ToLower_rds: "ToLower svc = ''rds'' \<longleftrightarrow> ignoring_case svc ''rds''"
  by (rule ToLower_ignoring_case) (simp add: capital_def)

lemma ToLower_lambda: "ToLower svc = ''lambda'' \<longleftrightarrow> ignoring_case svc ''lambda''"
  by (rule ToLower_ignoring_case) (simp add: capital_def)

lemma known_ToLower: "known svc \<longleftrightarrow> ToLower svc \<in> {''ec2'', ''s3'', ''rds'', ''lambda''}"
  by (auto simp: known_def ToLower_ec2 ToLower_s3 ToLower_rds ToLower_lambda)

lemma listing_first:
  "\<exists>rest. auditEC2 env requiredTags = Call DescribeInstancesInput # rest"
  "\<exists>rest. auditS3 env requiredTags = Call ListBucketsInput # rest"
  "\<exists>rest. auditRDS env requiredTags = Call DescribeDBInstancesInput # rest"
  "\<exists>rest. auditLambda env requiredTags = Call ListFunctionsInput # rest"
  by (simp_all add: auditEC2_def auditS3_def auditRDS_def auditLambda_def)

subsection \<open>Runs without work, and runs that return a report\<close>

lemma idle_successors:
  assumes "status s = Collecting" and "list_all (\<lambda>t. t = []) (tasks s)"
  shows "successors s = [s\<lparr>status := Returned (Inr (report s))\<rparr>]"
proof -
  have "task_steps s i = []" if "i < length (tasks s)" for i
    using that assms(2) by (simp add: task_steps_def list_all_length)
  then have "map (task_steps s) [0 ..< length (tasks s)] = map (\<lambda>i. []) [0 ..< length (tasks s)]"
    by (intro map_cong) auto
  then have "concat (map (task_steps s) [0 ..< length (tasks s)]) = []"
    by simp
  with assms show ?thesis by (simp add: successors_def)
qed

lemma idle_outcomes:
  assumes "status s = Collecting" and "list_all (\<lambda>t. t = []) (tasks s)"
  shows "outcomes s = [s\<lparr>status := Returned (Inr (report s))\<rparr>]"
  using assms by (simp add: outcomes_Collecting idle_successors outcomes_Returned)

lemma example_lambda_run:
  "AuditResources example_aws [''Lambda''] requiredTags =
     [\<lparr>tasks = [[Call (ListTagsInput (Some ''arn:notify'')),
                  SendError ''failed to get tags for Lambda function notify: AccessDenied'']],
       report = \<lparr>Resources = None\<rparr>,
       calls = [ListFunctionsInput, ListTagsInput (Some ''arn:resize'')],
       status = Returned (Inl ''failed to get tags for Lambda function resize: AccessDenied'')\<rparr>]"
  by (simp add: run_simps example_lambda)

lemma success_joins_producers:
  assumes "s' \<in> set (outcomes s)" and "status s = Collecting" and "status s' = Returned (Inr rep)"
  shows "list_all (\<lambda>t. t = []) (tasks s') \<and> rep = report s'"
proof -
  define I :: "state \<Rightarrow> bool" where "I = (\<lambda>x. \<forall>rep. status x = Returned (Inr rep) \<longrightarrow>
      list_all (\<lambda>t. t = []) (tasks x) \<and> rep = report x)"
  have "I s" using assms(2) by (simp add: I_def)
  moreover have "I b" if "I a" and "step a b" for a b
    using that(2) by cases (auto simp: I_def)
  ultimately have "I s'" using assms(1) outcomes_invariant [of s' s I] by blast
  with assms(3) show ?thesis by (simp add: I_def)
qed

subsection \<open>Output to a destination that never fails\<close>

lemma Flush_healthy:
  "healthy b \<Longrightarrow> healthy (Flush b) \<and> pipe (Flush b) = pipe b"
  by (auto simp: healthy_def pipe_def Flush_def Write_def)

lemma WriteString_healthy:
  "healthy b \<Longrightarrow> healthy (WriteString b s) \<and> pipe (WriteString b s) = pipe b @ s"
proof (induction b s rule: WriteString.induct)
  case (1 b s)
  show ?case
  proof (cases "length s > Available b \<and> sticky b = None")
    case False
    then have "WriteString b s = (case sticky b of Some err \<Rightarrow> b | None \<Rightarrow> b\<lparr>buffered := buffered b @ s\<rparr>)"
      by (subst WriteString.simps) (simp only: if_False)
    with "1.prems" show ?thesis
      by (simp add: healthy_def pipe_def)
  next
    case long: True
    show ?thesis
    proof (cases "buffered b = []")
      case True
      let ?b = "b\<lparr>sticky := None, dest := (dest b)\<lparr>written := written (dest b) @ s\<rparr>\<rparr>"
      have w: "Write (dest b) s = ((length s, None), (dest b)\<lparr>written := written (dest b) @ s\<rparr>)"
        using "1.prems" by (simp add: Write_def healthy_def)
      have h: "healthy ?b" using "1.prems" by (simp add: healthy_def)
      have "healthy (WriteString ?b (drop (length s) s)) \<and>
            pipe (WriteString ?b (drop (length s) s)) = pipe ?b @ drop (length s) s"
        using "1.IH"(1) [OF long True w [symmetric] refl h] .
      moreover have "WriteString b s = WriteString ?b (drop (length s) s)"
        using long True w by (subst WriteString.simps) simp
      moreover have "pipe ?b = pipe b @ s"
        using True by (simp add: pipe_def)
      ultimately show ?thesis by simp
    next
      case False
      let ?b = "Flush (b\<lparr>buffered := buffered b @ take (Available b) s\<rparr>)"
      have "healthy (b\<lparr>buffered := buffered b @ take (Available b) s\<rparr>)"
        using "1.prems" by (simp add: healthy_def)
      then have h: "healthy ?b" and p: "pipe ?b = pipe b @ take (Available b) s"
        using Flush_healthy [of "b\<lparr>buffered := buffered b @ take (Available b) s\<rparr>"]
        by (simp_all add: pipe_def)
      have "healthy (WriteString ?b (drop (Available b) s)) \<and>
            pipe (WriteString ?b (drop (Available b) s)) = pipe ?b @ drop (Available b) s"
        using "1.IH"(2) [OF long False h] .
      moreover have "WriteString b s = WriteString ?b (drop (Available b) s)"
        using long False by (subst WriteString.simps) simp
      ultimately show ?thesis using p by simp
    qed
  qed
qed

lemma WriteByte_healthy:
  assumes "healthy b"
  shows "healthy (WriteByte b c) \<and> pipe (WriteByte b c) = pipe b @ [c]"
proof -
  from assms have f: "healthy (Flush b)" "pipe (Flush b) = pipe b"
    using Flush_healthy [of b] by simp_all
  show ?thesis
  proof (cases "Available b \<le> 0")
    case True
    with assms f show ?thesis
      by (simp add: WriteByte_def Let_def healthy_def pipe_def)
  next
    case False
    with assms show ?thesis
      by (simp add: WriteByte_def Let_def healthy_def pipe_def)
  qed
qed

lemma Flush_empties: "healthy b \<Longrightarrow> buffered (Flush b) = []"
  by (auto simp: healthy_def Flush_def Write_def)

lemma quoted_append: "quoted (xs @ ys) = quoted xs @ quoted ys"
  by (simp add: quoted_def)

lemma quoted_plain: "\<forall>c \<in> set xs. \<not> special c \<Longrightarrow> quoted xs = xs"
  by (induction xs) (auto simp: quoted_def special_def)

lemma quoted_takeWhile: "quoted (takeWhile (\<lambda>c. \<not> special c) field) = takeWhile (\<lambda>c. \<not> special c) field"
  by (rule quoted_plain) (auto dest: set_takeWhileD)

lemma write_quoted_healthy:
  "healthy b \<Longrightarrow> healthy (write_quoted b field) \<and> pipe (write_quoted b field) = pipe b @ quoted field"
proof (induction b field rule: write_quoted.induct)
  case (1 b field)
  show ?case
  proof (cases "field = []")
    case True
    with "1.prems" show ?thesis
      by (subst (1 2) write_quoted.simps) (simp add: quoted_def)
  next
    case False
    let ?plain = "takeWhile (\<lambda>c. \<not> special c) field"
    let ?b1 = "WriteString b ?plain"
    have b1: "healthy ?b1" "pipe ?b1 = pipe b @ ?plain"
      using WriteString_healthy [OF "1.prems", of ?plain] by simp_all
    have split: "field = ?plain @ dropWhile (\<lambda>c. \<not> special c) field"
      by simp
    show ?thesis
    proof (cases "dropWhile (\<lambda>c. \<not> special c) field")
      case Nil
      then have "field = ?plain" using split by (metis append_Nil2)
      then have q: "quoted field = ?plain" using quoted_takeWhile [of field] by simp
      have "write_quoted b field = ?b1"
        by (subst write_quoted.simps) (simp only: False Nil Let_def if_False list.case)
      with b1 q show ?thesis by simp
    next
      case (Cons c rest)
      let ?b2 = "if c = quote then WriteString ?b1 [quote, quote] else WriteByte ?b1 c"
      have b2: "healthy ?b2" "pipe ?b2 = pipe ?b1 @ quoted [c]"
        using WriteString_healthy [OF b1(1), of "[quote, quote]"] WriteByte_healthy [OF b1(1), of c]
        by (simp_all add: quoted_def)
      have "healthy (write_quoted ?b2 rest) \<and> pipe (write_quoted ?b2 rest) = pipe ?b2 @ quoted rest"
        using "1.IH" [OF False refl Cons b2(1)] .
      moreover have "write_quoted b field = write_quoted ?b2 rest"
        by (subst write_quoted.simps) (simp only: False Cons Let_def if_False list.case)
      moreover have "quoted field = ?plain @ quoted [c] @ quoted rest"
      proof -
        have "quoted field = quoted (?plain @ [c] @ rest)"
          using split Cons by simp
        then show ?thesis
          by (simp only: quoted_append quoted_takeWhile)
      qed
      ultimately show ?thesis using b1(2) b2(2) by simp
    qed
  qed
qed

lemma write_field_healthy:
  assumes "healthy b"
  shows "healthy (write_field b field) \<and> pipe (write_field b field) = pipe b @ csv_field field"
proof (cases "fieldNeedsQuotes field")
  case False
  with WriteString_healthy [OF assms, of field] show ?thesis
    by (simp add: write_field_def csv_field_def)
next
  case True
  let ?b1 = "WriteByte b quote"
  have b1: "healthy ?b1" "pipe ?b1 = pipe b @ [quote]"
    using WriteByte_healthy [OF assms, of quote] by simp_all
  let ?b2 = "write_quoted ?b1 field"
  have b2: "healthy ?b2" "pipe ?b2 = pipe ?b1 @ quoted field"
    using write_quoted_healthy [OF b1(1), of field] by simp_all
  have "healthy (WriteByte ?b2 quote)" "pipe (WriteByte ?b2 quote) = pipe ?b2 @ [quote]"
    using WriteByte_healthy [OF b2(1), of quote] by simp_all
  with True b1(2) b2(2) show ?thesis
    by (simp add: write_field_def csv_field_def)
qed

lemma write_fields_healthy:
  "healthy b \<Longrightarrow>
   healthy (write_fields b first row) \<and>
   pipe (write_fields b first row) =
     pipe b @ (if first then Join (map csv_field row) '','' else concat (map (\<lambda>f. '','' @ csv_field f) row))"
proof (induction row arbitrary: b first)
  case Nil
  then show ?case by simp
next
  case (Cons field rest)
  let ?b0 = "if first then b else WriteByte b (CHR '','')"
  have b0: "healthy ?b0" "pipe ?b0 = pipe b @ (if first then [] else '','')"
    using WriteByte_healthy [OF Cons.prems, of "CHR '',''"] Cons.prems by simp_all
  let ?b1 = "write_field ?b0 field"
  have b1: "healthy ?b1" "pipe ?b1 = pipe ?b0 @ csv_field field"
    using write_field_healthy [OF b0(1), of field] by simp_all
  have r: "healthy (write_fields ?b1 False rest)"
    "pipe (write_fields ?b1 False rest) = pipe ?b1 @ concat (map (\<lambda>f. '','' @ csv_field f) rest)"
    using Cons.IH [OF b1(1), of False] by simp_all
  have j: "Join (x # xs) sep = x @ concat (map (\<lambda>y. sep @ y) xs)" for x :: string and xs sep
    by (induction xs arbitrary: x) simp_all
  from r b1(2) b0(2) show ?case
    by (simp add: j comp_def)
qed

lemma csv_Write_healthy:
  assumes "healthy b"
  shows "\<exists>b'. csv_Write b row = (None, b') \<and> healthy b' \<and> pipe b' = pipe b @ csv_line row"
proof -
  let ?b1 = "write_fields b True row"
  have b1: "healthy ?b1" "pipe ?b1 = pipe b @ Join (map csv_field row) '',''"
    using write_fields_healthy [OF assms, of True row] by simp_all
  have "healthy (WriteByte ?b1 newline)" "pipe (WriteByte ?b1 newline) = pipe ?b1 @ [newline]"
    using WriteByte_healthy [OF b1(1), of newline] by simp_all
  with b1(2) show ?thesis
    by (simp add: csv_Write_def Let_def csv_line_def healthy_def)
qed

lemma csv_rows_healthy:
  "healthy b \<Longrightarrow>
   \<exists>b'. csv_rows b resources orders = (None, b') \<and> healthy b' \<and>
        pipe b' = pipe b @ concat (map csv_line (csv_table resources orders))"
proof (induction resources arbitrary: b orders)
  case Nil
  then show ?case by simp
next
  case (Cons resource rest)
  let ?row = "csv_row (case orders of [] \<Rightarrow> [] | order # later \<Rightarrow> order) resource"
  from csv_Write_healthy [OF Cons.prems, of ?row] obtain b1
    where b1: "csv_Write b ?row = (None, b1)" "healthy b1" "pipe b1 = pipe b @ csv_line ?row"
    by blast
  from Cons.IH [OF b1(2), of "tl orders"] obtain b2
    where b2: "csv_rows b1 rest (tl orders) = (None, b2)" "healthy b2"
      "pipe b2 = pipe b1 @ concat (map csv_line (csv_table rest (tl orders)))"
    by blast
  from b1 b2 show ?case by simp
qed

lemma OutputCSV_healthy:
  assumes "room w = None"
  shows "OutputCSV orders r w =
           (None, w\<lparr>written := written w @ csv_line header @
                      concat (map csv_line (csv_table (elems (Resources r)) orders))\<rparr>)"
proof -
  have h0: "healthy (NewWriter w)" and p0: "pipe (NewWriter w) = written w"
    using assms by (simp_all add: healthy_def pipe_def NewWriter_def)
  from csv_Write_healthy [OF h0, of header] obtain b1
    where b1: "csv_Write (NewWriter w) header = (None, b1)" "healthy b1"
      "pipe b1 = pipe (NewWriter w) @ csv_line header"
    by blast
  from csv_rows_healthy [OF b1(2), of "elems (Resources r)" orders] obtain b2
    where b2: "csv_rows b1 (elems (Resources r)) orders = (None, b2)" "healthy b2"
      "pipe b2 = pipe b1 @ concat (map csv_line (csv_table (elems (Resources r)) orders))"
    by blast
  have f: "healthy (Flush b2)" "pipe (Flush b2) = pipe b2" "buffered (Flush b2) = []"
    using Flush_healthy [OF b2(2)] Flush_empties [OF b2(2)] by simp_all
  have d: "dest (Flush b2) = \<lparr>written = pipe b2, room = None\<rparr>"
    using f by (cases "dest (Flush b2)") (simp add: pipe_def healthy_def)
  have w: "w = \<lparr>written = written w, room = None\<rparr>"
    using assms by (cases w) simp
  have "OutputCSV orders r w = (None, dest (Flush b2))"
    using b1(1) b2(1) by (simp add: OutputCSV_def header_def)
  also have "dest (Flush b2) = w\<lparr>written := written w @ csv_line header @
                      concat (map csv_line (csv_table (elems (Resources r)) orders))\<rparr>"
    unfolding d using b2(3) b1(3) p0 by (subst (2) w) simp
  finally show ?thesis .
qed

lemmas csv_simps = csv_line_def csv_field_def fieldNeedsQuotes_def starts_with_space_def spaces_def
  newline_def carriage_return_def quote_def

lemma header_line: "csv_line header = ''Service,Resource ID,Resource Type,Tags,Missing Tags'' @ [newline]"
  by (simp add: header_def csv_simps)

lemma example_row_Name_first:
  "csv_line (csv_row [''Name'', ''environment''] (example_record [''project'', ''owner''])) =
     ''EC2,i-1234567890abcdef0,Instance,Name:webserver; environment:production,project; owner'' @ [newline]"
  by (simp add: csv_row_def example_record_def lookup_def elems_def csv_simps)

lemma example_row_environment_first:
  "csv_line (csv_row [''environment'', ''Name''] (example_record [''project'', ''owner''])) =
     ''EC2,i-1234567890abcdef0,Instance,environment:production; Name:webserver,project; owner'' @ [newline]"
  by (simp add: csv_row_def example_record_def lookup_def elems_def csv_simps)

lemma example_visits:
  "visits (Tags (example_record ms)) order \<longleftrightarrow>
     order = [''Name'', ''environment''] \<or> order = [''environment'', ''Name'']"
proof
  assume v: "visits (Tags (example_record ms)) order"
  then have d: "distinct order" and s: "set order = {''Name'', ''environment''}"
    by (auto simp: visits_def example_record_def)
  then have "length order = 2"
    using distinct_card [of order] by simp
  then obtain a b where o: "order = [a, b]"
    by (cases order; cases "tl order"; cases "tl (tl order)") auto
  with d s show "order = [''Name'', ''environment''] \<or> order = [''environment'', ''Name'']"
    by (auto simp: doubleton_eq_iff)
next
  assume "order = [''Name'', ''environment''] \<or> order = [''environment'', ''Name'']"
  then show "visits (Tags (example_record ms)) order"
    by (auto simp: visits_def example_record_def)
qed

subsection \<open>Output that fits into the buffer\<close>

lemma fits_append: "fits b (s @ t) \<Longrightarrow> fits b s \<and> fits (b\<lparr>buffered := buffered b @ s\<rparr>) t"
  by (simp add: fits_def)

lemma WriteString_fits:
  assumes "fits b s"
  shows "WriteString b s = b\<lparr>buffered := buffered b @ s\<rparr>"
proof -
  from assms have "\<not> (length s > Available b \<and> sticky b = None)"
    by (auto simp: fits_def Available_def)
  then have "WriteString b s = (case sticky b of Some err \<Rightarrow> b | None \<Rightarrow> b\<lparr>buffered := buffered b @ s\<rparr>)"
    by (subst WriteString.simps) (simp only: if_False)
  with assms show ?thesis by (simp add: fits_def)
qed

lemma WriteByte_fits:
  assumes "fits b [c]"
  shows "WriteByte b c = b\<lparr>buffered := buffered b @ [c]\<rparr>"
proof -
  from assms have "\<not> Available b \<le> 0" and "sticky b = None"
    by (auto simp: fits_def Available_def)
  then show ?thesis
    by (simp add: WriteByte_def Let_def)
qed

lemma write_quoted_fits:
  "fits b (quoted field) \<Longrightarrow> write_quoted b field = b\<lparr>buffered := buffered b @ quoted field\<rparr>"
proof (induction b field rule: write_quoted.induct)
  case (1 b field)
  show ?case
  proof (cases "field = []")
    case True
    then show ?thesis
      by (subst write_quoted.simps) (simp add: quoted_def)
  next
    case False
    let ?plain = "takeWhile (\<lambda>c. \<not> special c) field"
    let ?b1 = "WriteString b ?plain"
    have split: "field = ?plain @ dropWhile (\<lambda>c. \<not> special c) field"
      by simp
    show ?thesis
    proof (cases "dropWhile (\<lambda>c. \<not> special c) field")
      case Nil
      then have "field = ?plain" using split by (metis append_Nil2)
      then have q: "quoted field = ?plain" using quoted_takeWhile [of field] by simp
      with "1.prems" have b1: "?b1 = b\<lparr>buffered := buffered b @ ?plain\<rparr>"
        by (simp add: WriteString_fits)
      have "write_quoted b field = ?b1"
        by (subst write_quoted.simps) (simp only: False Nil Let_def if_False list.case)
      with b1 q show ?thesis by simp
    next
      case (Cons c rest)
      have q: "quoted field = ?plain @ quoted [c] @ quoted rest"
      proof -
        have "quoted field = quoted (?plain @ [c] @ rest)"
          using split Cons by simp
        then show ?thesis
          by (simp only: quoted_append quoted_takeWhile)
      qed
      with "1.prems" have f: "fits b (?plain @ quoted [c] @ quoted rest)" by simp
      then have f1: "fits b ?plain" and f2: "fits (b\<lparr>buffered := buffered b @ ?plain\<rparr>) (quoted [c] @ quoted rest)"
        using fits_append [of b ?plain "quoted [c] @ quoted rest"] by simp_all
      from f1 have b1: "?b1 = b\<lparr>buffered := buffered b @ ?plain\<rparr>"
        by (rule WriteString_fits)
      let ?b2 = "if c = quote then WriteString ?b1 [quote, quote] else WriteByte ?b1 c"
      from f2 have f3: "fits ?b1 (quoted [c])" and f4: "fits (?b1\<lparr>buffered := buffered ?b1 @ quoted [c]\<rparr>) (quoted rest)"
        using fits_append [of "b\<lparr>buffered := buffered b @ ?plain\<rparr>" "quoted [c]" "quoted rest"] b1
        by simp_all
      have b2: "?b2 = ?b1\<lparr>buffered := buffered ?b1 @ quoted [c]\<rparr>"
      proof (cases "c = quote")
        case True
        with f3 have "fits ?b1 [quote, quote]" by (simp add: quoted_def)
        then have "WriteString ?b1 [quote, quote] = ?b1\<lparr>buffered := buffered ?b1 @ [quote, quote]\<rparr>"
          by (rule WriteString_fits)
        with True show ?thesis by (simp add: quoted_def)
      next
        case False
        with f3 have "fits ?b1 [c]" by (simp add: quoted_def)
        then have "WriteByte ?b1 c = ?b1\<lparr>buffered := buffered ?b1 @ [c]\<rparr>"
          by (rule WriteByte_fits)
        with False show ?thesis by (simp add: quoted_def)
      qed
      have "write_quoted ?b2 rest = ?b2\<lparr>buffered := buffered ?b2 @ quoted rest\<rparr>"
        using "1.IH" [OF False refl Cons] f4 b2 by simp
      moreover have "write_quoted b field = write_quoted ?b2 rest"
        by (subst write_quoted.simps) (simp only: False Cons Let_def if_False list.case)
      ultimately show ?thesis
        using b1 b2 q by simp
    qed
  qed
qed

lemma write_field_fits:
  assumes "fits b (csv_field field)"
  shows "write_field b field = b\<lparr>buffered := buffered b @ csv_field field\<rparr>"
proof (cases "fieldNeedsQuotes field")
  case False
  with assms show ?thesis
    by (simp add: write_field_def csv_field_def WriteString_fits)
next
  case True
  with assms have f: "fits b ([quote] @ quoted field @ [quote])"
    by (simp add: csv_field_def)
  let ?b1 = "b\<lparr>buffered := buffered b @ [quote]\<rparr>"
  let ?b2 = "?b1\<lparr>buffered := buffered ?b1 @ quoted field\<rparr>"
  from f have 1: "fits b [quote]" and 2: "fits ?b1 (quoted field)" and 3: "fits ?b2 [quote]"
    by (simp_all add: fits_def)
  from 1 have "WriteByte b quote = ?b1" by (rule WriteByte_fits)
  moreover from 2 have "write_quoted ?b1 field = ?b2" by (rule write_quoted_fits)
  moreover from 3 have "WriteByte ?b2 quote = ?b2\<lparr>buffered := buffered ?b2 @ [quote]\<rparr>"
    by (rule WriteByte_fits)
  ultimately show ?thesis
    using True by (simp add: write_field_def csv_field_def)
qed

lemma Join_Cons: "Join (x # xs) sep = x @ concat (map (\<lambda>y. sep @ y) xs)"
  by (induction xs arbitrary: x) simp_all

lemma joined_Cons:
  "joined first (field # rest) = (if first then [] else '','') @ csv_field field @ joined False rest"
  by (simp add: joined_def Join_Cons comp_def)

lemma write_fields_fits:
  "fits b (joined first row) \<Longrightarrow>
   write_fields b first row = b\<lparr>buffered := buffered b @ joined first row\<rparr>"
proof (induction row arbitrary: b first)
  case Nil
  then show ?case by (simp add: joined_def)
next
  case (Cons field rest)
  let ?sep = "if first then [] else '',''"
  let ?b0 = "b\<lparr>buffered := buffered b @ ?sep\<rparr>"
  let ?b1 = "?b0\<lparr>buffered := buffered ?b0 @ csv_field field\<rparr>"
  from Cons.prems have f: "fits b (?sep @ csv_field field @ joined False rest)"
    by (simp only: joined_Cons)
  then have 0: "fits b ?sep" and 1: "fits ?b0 (csv_field field)" and 2: "fits ?b1 (joined False rest)"
    by (simp_all add: fits_def)
  have b0: "(if first then b else WriteByte b (CHR '','')) = ?b0"
    using 0 WriteByte_fits [of b "CHR '',''"] by (cases first) simp_all
  have b1: "write_field ?b0 field = ?b1"
    using 1 by (rule write_field_fits)
  have "write_fields ?b1 False rest = ?b1\<lparr>buffered := buffered ?b1 @ joined False rest\<rparr>"
    using 2 by (rule Cons.IH)
  then show ?case
    by (simp only: write_fields.simps b0 b1 joined_Cons) simp
qed

lemma csv_line_joined: "csv_line row = joined True row @ [newline]"
  by (simp add: csv_line_def joined_def)

lemma csv_Write_fits:
  assumes "fits b (csv_line row)"
  shows "csv_Write b row = (None, b\<lparr>buffered := buffered b @ csv_line row\<rparr>)"
proof -
  let ?b1 = "b\<lparr>buffered := buffered b @ joined True row\<rparr>"
  from assms have 1: "fits b (joined True row)" and 2: "fits ?b1 [newline]"
    by (simp_all add: fits_def csv_line_joined)
  from 1 have "write_fields b True row = ?b1" by (rule write_fields_fits)
  moreover from 2 have "WriteByte ?b1 newline = ?b1\<lparr>buffered := buffered ?b1 @ [newline]\<rparr>"
    by (rule WriteByte_fits)
  ultimately show ?thesis
    using assms by (simp add: csv_Write_def Let_def csv_line_joined fits_def)
qed

lemma csv_rows_fits:
  "fits b (concat (map csv_line (csv_table resources orders))) \<Longrightarrow>
   csv_rows b resources orders =
     (None, b\<lparr>buffered := buffered b @ concat (map csv_line (csv_table resources orders))\<rparr>)"
proof (induction resources arbitrary: b orders)
  case Nil
  then show ?case by simp
next
  case (Cons resource rest)
  let ?row = "csv_row (case orders of [] \<Rightarrow> [] | order # later \<Rightarrow> order) resource"
  let ?b1 = "b\<lparr>buffered := buffered b @ csv_line ?row\<rparr>"
  from Cons.prems have 1: "fits b (csv_line ?row)"
    and 2: "fits ?b1 (concat (map csv_line (csv_table rest (tl orders))))"
    by (simp_all add: fits_def)
  from 1 have "csv_Write b ?row = (None, ?b1)" by (rule csv_Write_fits)
  moreover from 2 have "csv_rows ?b1 rest (tl orders) =
      (None, ?b1\<lparr>buffered := buffered ?b1 @ concat (map csv_line (csv_table rest (tl orders)))\<rparr>)"
    by (rule Cons.IH)
  ultimately show ?case by simp
qed

lemma OutputCSV_small:
  assumes "length (csv_line header @ concat (map csv_line (csv_table (elems (Resources r)) orders))) \<le> bufsize"
  shows "fst (OutputCSV orders r w) = None"
proof -
  let ?b0 = "NewWriter w"
  let ?b1 = "?b0\<lparr>buffered := buffered ?b0 @ csv_line header\<rparr>"
  from assms have 1: "fits ?b0 (csv_line header)"
    and 2: "fits ?b1 (concat (map csv_line (csv_table (elems (Resources r)) orders)))"
    by (simp_all add: fits_def NewWriter_def)
  from 1 have "csv_Write ?b0 header = (None, ?b1)" by (rule csv_Write_fits)
  moreover from 2 have "csv_rows ?b1 (elems (Resources r)) orders =
      (None, ?b1\<lparr>buffered := buffered ?b1 @ concat (map csv_line (csv_table (elems (Resources r)) orders))\<rparr>)"
    by (rule csv_rows_fits)
  ultimately show ?thesis
    by (simp add: OutputCSV_def header_def)
qed

lemma example_csv_full:
  "fst (OutputCSV [[''Name'', ''environment'']] example_report full_device) = None"
  by (rule OutputCSV_small)
     (simp add: header_line example_report_def elems_def example_row_Name_first bufsize_def)

subsection \<open>The command\<close>

lemma main_flag_missing:
  assumes "required_tags args = None"
  shows "main env encode orders w args =
           [(\<lparr>requests = [], ending = Done (Some flag_missing),
              stdout_after = Fprint w (flag_missing @ [newline])\<rparr>, 1)]"
proof -
  from assms have "ValidateRequiredFlags [''required-tags''] args = Some flag_missing"
    by (simp add: ValidateRequiredFlags_def Changed_def flag_missing_def)
  then show ?thesis by (simp add: main_def)
qed

lemma main_flag_given:
  assumes "required_tags args = Some requiredTags"
  shows "main env encode orders w args =
           map (\<lambda>f. (f, exit_status (ending f)))
             (runAudit env encode orders w (requested_services args) requiredTags
                (requested_format args))"
proof -
  from assms have "ValidateRequiredFlags [''required-tags''] args = None"
    by (simp add: ValidateRequiredFlags_def Changed_def)
  with assms show ?thesis by (simp add: main_def requested_tags_def)
qed

lemma all_calls_made:
  assumes out: "s' \<in> set (outcomes s)" and c: "status s = Collecting"
    and ok: "status s' = Returned (Inr rep)" and p: "Call c \<in> pending s"
  shows "c \<in> set (calls s')"
proof -
  define I :: "state \<Rightarrow> bool" where
    "I = (\<lambda>x. c \<in> set (calls x) \<or> Call c \<in> pending x)"
  have "I s" using p by (simp add: I_def)
  moreover have "I b" if "I a" and "step a b" for a b
    using that(2)
  proof cases
    case (call i c' rest)
    show ?thesis
    proof (cases "c' = c")
      case True
      with call show ?thesis by (simp add: I_def)
    next
      case False
      with that(1) call show ?thesis
        using pending_kept [of "Call c" "tasks a" i "Call c'" rest]
        by (auto simp: I_def pending_def)
    qed
  next
    case (recv_resource i r rest)
    with that(1) show ?thesis
      using pending_kept [of "Call c" "tasks a" i "SendResource r" rest]
      by (auto simp: I_def pending_def)
  next
    case (recv_error i e rest)
    with that(1) show ?thesis
      using pending_kept [of "Call c" "tasks a" i "SendError e" rest]
      by (auto simp: I_def pending_def)
  next
    case recv_done
    with that(1) show ?thesis by (simp add: I_def pending_def)
  next
    case (panic i rest)
    with that(1) show ?thesis by (simp add: I_def pending_def)
  qed
  ultimately have "I s'" using out outcomes_invariant [of s' s I] by blast
  moreover have "pending s' = {}"
    using success_joins_producers [OF out c ok] by (auto simp: pending_def list_all_iff)
  ultimately show ?thesis by (simp add: I_def)
qed

lemma exit_status_zero: "exit_status e = 0 \<longleftrightarrow> e = Done None"
  by (auto simp: exit_status_def split: ending.splits option.splits)

lemma present_unknown:
  "outputFormat \<notin> {''json'', ''csv'', ''text''} \<Longrightarrow>
   present encode orders outputFormat r w = (Some (''unsupported output format: '' @ outputFormat), w)"
  by (simp add: present_def)

lemma example_ec2_run:
  "AuditResources example_aws [''EC2''] requiredTags =
     [\<lparr>tasks = [[]],
       report = \<lparr>Resources = Some [example_record (filter (\<lambda>t. t \<noteq> ''Name'' \<and> t \<noteq> ''environment'') requiredTags)]\<rparr>,
       calls = [DescribeInstancesInput],
       status = Returned (Inr \<lparr>Resources = Some [example_record (filter (\<lambda>t. t \<noteq> ''Name'' \<and> t \<noteq> ''environment'') requiredTags)]\<rparr>)\<rparr>]"
  by (simp add: run_simps example_ec2 go_append_def)

lemma xml_run:
  "main example_aws no_encoder [] stdout xml_flags =
     [(\<lparr>requests = [DescribeInstancesInput],
        ending = Done (Some ''unsupported output format: xml''),
        stdout_after = stdout\<rparr>, 1)]"
proof -
  have "LoadDefaultConfig example_aws = None"
    by (simp add: example_aws_def)
  moreover have "required_tags xml_flags = Some [''owner'']"
    by (simp add: xml_flags_def)
  ultimately show ?thesis
    by (simp add: main_flag_given [of xml_flags "[''owner'']"])
       (simp add: xml_flags_def requested_services_def requested_format_def runAudit_def
        example_ec2_run after_audit_def present_def exit_status_def)
qed

lemma example_rds:
  "worker example_aws requiredTags ''rds'' =
     [Call DescribeDBInstancesInput, SendError ''failed to describe RDS instances: timeout'']"
  by (simp add: worker_simps example_aws_def auditRDS_def)

lemma example_rds_run:
  "AuditResources example_aws [''rds''] requiredTags =
     [\<lparr>tasks = [[]], report = \<lparr>Resources = None\<rparr>, calls = [DescribeDBInstancesInput],
       status = Returned (Inl ''failed to describe RDS instances: timeout'')\<rparr>]"
  by (simp add: run_simps example_rds)

lemma xml_rds_run:
  "main example_aws no_encoder [] stdout xml_rds_flags =
     [(\<lparr>requests = [DescribeDBInstancesInput],
        ending = Done (Some ''failed to audit resources: failed to describe RDS instances: timeout''),
        stdout_after = stdout\<rparr>, 1)]"
proof -
  have "LoadDefaultConfig example_aws = None"
    by (simp add: example_aws_def)
  moreover have "required_tags xml_rds_flags = Some [''owner'']"
    by (simp add: xml_rds_flags_def)
  ultimately show ?thesis
    by (simp add: main_flag_given [of xml_rds_flags "[''owner'']"])
       (simp add: xml_rds_flags_def requested_services_def requested_format_def runAudit_def
        example_rds_run after_audit_def exit_status_def)
qed

lemma main_unknown_format:
  assumes t: "required_tags args = Some requiredTags"
    and u: "requested_format args \<notin> {''json'', ''csv'', ''text''}"
    and l: "LoadDefaultConfig env = None"
  shows "main env encode orders w args =
      map (\<lambda>s'. (after_audit encode orders (requested_format args) w s',
                   exit_status (ending (after_audit encode orders (requested_format args) w s'))))
        (AuditResources env (requested_services args) requiredTags)"
  using t l by (simp add: main_flag_given runAudit_def)

lemma main_no_config:
  assumes t: "required_tags args = Some requiredTags"
    and l: "LoadDefaultConfig env \<noteq> None"
  shows "main env encode orders w args = [(\<lparr>requests = [], ending = Panicked, stdout_after = w\<rparr>, 2)]"
  using t l by (auto simp: main_flag_given runAudit_def exit_status_def)

lemma failed_run_in_main:
  assumes t: "required_tags args = Some requiredTags"
    and u: "requested_format args \<notin> {''json'', ''csv'', ''text''}"
    and l: "LoadDefaultConfig env = None"
    and s': "s' \<in> set (AuditResources env (requested_services args) requiredTags)"
    and e: "status s' = Returned (Inl e)"
  shows "(\<lparr>requests = calls s', ending = Done (Some (''failed to audit resources: '' @ e)),
           stdout_after = w\<rparr>, 1) \<in> set (main env encode orders w args)"
proof -
  let ?g = "\<lambda>s'. (after_audit encode orders (requested_format args) w s',
                   exit_status (ending (after_audit encode orders (requested_format args) w s')))"
  from e have "after_audit encode orders (requested_format args) w s' =
      \<lparr>requests = calls s', ending = Done (Some (''failed to audit resources: '' @ e)), stdout_after = w\<rparr>"
    by (simp add: after_audit_def)
  then have "?g s' =
      (\<lparr>requests = calls s', ending = Done (Some (''failed to audit resources: '' @ e)), stdout_after = w\<rparr>, 1)"
    by (simp add: exit_status_def)
  from this [symmetric] s'
  have "(\<lparr>requests = calls s', ending = Done (Some (''failed to audit resources: '' @ e)),
           stdout_after = w\<rparr>, 1) \<in> ?g ` set (AuditResources env (requested_services args) requiredTags)"
    by (rule image_eqI)
  then show ?thesis
    unfolding main_unknown_format [OF t u l] set_map .
qed

lemma successful_run_in_main:
  assumes t: "required_tags args = Some requiredTags"
    and u: "requested_format args \<notin> {''json'', ''csv'', ''text''}"
    and l: "LoadDefaultConfig env = None"
    and s': "s' \<in> set (AuditResources env (requested_services args) requiredTags)"
    and r: "status s' = Returned (Inr rep)"
  shows "(\<lparr>requests = calls s',
           ending = Done (Some (''unsupported output format: '' @ requested_format args)),
           stdout_after = w\<rparr>, 1) \<in> set (main env encode orders w args)"
proof -
  let ?g = "\<lambda>s'. (after_audit encode orders (requested_format args) w s',
                   exit_status (ending (after_audit encode orders (requested_format args) w s')))"
  from r u have "after_audit encode orders (requested_format args) w s' =
      \<lparr>requests = calls s',
       ending = Done (Some (''unsupported output format: '' @ requested_format args)), stdout_after = w\<rparr>"
    by (simp add: after_audit_def present_unknown)
  then have "?g s' =
      (\<lparr>requests = calls s',
        ending = Done (Some (''unsupported output format: '' @ requested_format args)), stdout_after = w\<rparr>, 1)"
    by (simp add: exit_status_def)
  from this [symmetric] s'
  have "(\<lparr>requests = calls s',
           ending = Done (Some (''unsupported output format: '' @ requested_format args)),
           stdout_after = w\<rparr>, 1) \<in> ?g ` set (AuditResources env (requested_services args) requiredTags)"
    by (rule image_eqI)
  then show ?thesis
    unfolding main_unknown_format [OF t u l] set_map .
qed


lemma run_of_main:
  assumes t: "required_tags args = Some requiredTags"
    and u: "requested_format args \<notin> {''json'', ''csv'', ''text''}"
    and l: "LoadDefaultConfig env = None"
    and m: "(f, code) \<in> set (main env encode orders w args)"
  shows "\<exists>s' \<in> set (AuditResources env (requested_services args) requiredTags).
           requests f = calls s' \<and> stdout_after f = w \<and>
           ((\<exists>e. status s' = Returned (Inl e) \<and>
                 ending f = Done (Some (''failed to audit resources: '' @ e)) \<and> code = 1) \<or>
            (\<exists>rep. status s' = Returned (Inr rep) \<and>
                 ending f = Done (Some (''unsupported output format: '' @ requested_format args)) \<and>
                 code = 1 \<and> list_all (\<lambda>t. t = []) (tasks s') \<and>
                 (\<forall>svc \<in> set (requested_services args). \<forall>c.
                    Call c \<in> set (worker env requiredTags svc) \<longrightarrow> c \<in> set (calls s'))) \<or>
            (status s' = Crashed \<and> ending f = Panicked \<and> code = 2))"
proof -
  let ?fmt = "requested_format args" and ?svcs = "requested_services args"
  let ?audit = "AuditResources env ?svcs requiredTags"
  from m obtain s' where s': "s' \<in> set ?audit"
    and f: "f = after_audit encode orders ?fmt w s'"
    and code: "code = exit_status (ending f)"
    unfolding main_unknown_format [OF t u l] by auto
  from s' have o: "s' \<in> set (outcomes (start env ?svcs requiredTags))"
    by (simp add: AuditResources_def)
  have st: "status (start env ?svcs requiredTags) = Collecting"
    by (simp add: start_def)
  have "requests f = calls s' \<and> stdout_after f = w \<and>
           ((\<exists>e. status s' = Returned (Inl e) \<and>
                 ending f = Done (Some (''failed to audit resources: '' @ e)) \<and> code = 1) \<or>
            (\<exists>rep. status s' = Returned (Inr rep) \<and>
                 ending f = Done (Some (''unsupported output format: '' @ ?fmt)) \<and>
                 code = 1 \<and> list_all (\<lambda>t. t = []) (tasks s') \<and>
                 (\<forall>svc \<in> set ?svcs. \<forall>c.
                    Call c \<in> set (worker env requiredTags svc) \<longrightarrow> c \<in> set (calls s'))) \<or>
            (status s' = Crashed \<and> ending f = Panicked \<and> code = 2))"
  proof (cases "status s'")
    case Collecting
    with outcomes_left_loop [OF o] show ?thesis by simp
  next
    case Crashed
    then have "f = \<lparr>requests = calls s', ending = Panicked, stdout_after = w\<rparr>"
      by (simp add: f after_audit_def)
    with Crashed code show ?thesis by (simp add: exit_status_def)
  next
    case (Returned res)
    show ?thesis
    proof (cases res)
      case (Inl e)
      with Returned have "f = \<lparr>requests = calls s',
          ending = Done (Some (''failed to audit resources: '' @ e)), stdout_after = w\<rparr>"
        by (simp add: f after_audit_def)
      with Returned Inl code show ?thesis by (simp add: exit_status_def)
    next
      case (Inr rep)
      with Returned have r: "status s' = Returned (Inr rep)" by simp
      with u have ff: "f = \<lparr>requests = calls s',
          ending = Done (Some (''unsupported output format: '' @ ?fmt)), stdout_after = w\<rparr>"
        by (simp add: f after_audit_def present_unknown)
      with code have c1: "code = 1" by (simp add: exit_status_def)
      from success_joins_producers [OF o st r]
      have j: "list_all (\<lambda>t. t = []) (tasks s')" by simp
      have all: "\<forall>svc \<in> set ?svcs. \<forall>c.
                    Call c \<in> set (worker env requiredTags svc) \<longrightarrow> c \<in> set (calls s')"
      proof (intro ballI allI impI)
        fix svc c
        assume "svc \<in> set ?svcs" and "Call c \<in> set (worker env requiredTags svc)"
        then have "Call c \<in> pending (start env ?svcs requiredTags)"
          by (auto simp: pending_start)
        from all_calls_made [OF o st r this] show "c \<in> set (calls s')" .
      qed
      have e: "ending f = Done (Some (''unsupported output format: '' @ ?fmt))"
        and q: "requests f = calls s'" and w: "stdout_after f = w"
        by (simp_all add: ff)
      from r e c1 j all have "\<exists>rep. status s' = Returned (Inr rep) \<and>
                 ending f = Done (Some (''unsupported output format: '' @ ?fmt)) \<and>
                 code = 1 \<and> list_all (\<lambda>t. t = []) (tasks s') \<and>
                 (\<forall>svc \<in> set ?svcs. \<forall>c.
                    Call c \<in> set (worker env requiredTags svc) \<longrightarrow> c \<in> set (calls s'))"
        by (intro exI [of _ rep] conjI)
      with q w show ?thesis by (intro conjI disjI2 disjI1)
    qed
  qed
  with s' show ?thesis by (rule bexI [rotated])
qed


lemma errors_differ:
  "''failed to audit resources: '' @ e \<noteq> ''unsupported output format: '' @ x"
  by simp

lemma csv_table_length: "length (csv_table resources orders) = length resources"
  by (induction resources arbitrary: orders) simp_all

lemma example_csv:
  "OutputCSV [order] example_report stdout =
     (None, \<lparr>written = csv_line header @ csv_line (csv_row order (example_record [''project'', ''owner''])),
             room = None\<rparr>)"
  by (simp add: OutputCSV_healthy stdout_def example_report_def elems_def)

lemma Fprint_full: "s \<noteq> [] \<Longrightarrow> Fprint full_device s = full_device"
  by (simp add: Fprint_def Write_def full_device_def)

lemma OutputText_full: "OutputText example_report full_device = (None, full_device)"
  by (simp add: OutputText_def text_resource_def example_report_def elems_def Fprint_full Let_def)

section \<open>The claims\<close>

subsection \<open>Missing tags\<close>

text \<open>
  C1. Every record that a provider sends has a tag map, and its missing tags are the
  required tags that are not keys of that map, in the order of the required tags. The
  list has no duplicates when the required tags have none: a required tag that is given
  twice and is absent is listed twice.
\<close>

theorem missing_tags_invariant:
  assumes "SendResource r \<in> set (worker env requiredTags svc)"
  shows "\<exists>tags. Tags r = Some tags \<and>
           MissingTags r = Some (filter (\<lambda>t. t \<notin> dom tags) requiredTags) \<and>
           (distinct requiredTags \<longrightarrow> distinct (elems (MissingTags r)))"
proof -
  from assms have "tagged requiredTags r" by (rule worker_tagged)
  then obtain tags where t: "Tags r = Some tags"
    and m: "MissingTags r = Some (filter (\<lambda>t. tags t = None) requiredTags)"
    by (auto simp: tagged_def split: option.splits)
  have "(\<lambda>t. tags t = None) = (\<lambda>t. t \<notin> dom tags)"
    by (auto simp: dom_def)
  with t m show ?thesis
    by (auto simp: elems_def)
qed

text \<open>The record of the README's instance, for the required tags environment, project, owner.\<close>

theorem missing_tags_invariant_witness:
  "SendResource (example_record [''project'', ''owner''])
     \<in> set (worker example_aws [''environment'', ''project'', ''owner''] ''EC2'') \<and>
   distinct [''environment'', ''project'', ''owner''] \<and>
   (\<exists>tags. Tags (example_record [''project'', ''owner'']) = Some tags \<and>
      MissingTags (example_record [''project'', ''owner''])
        = Some (filter (\<lambda>t. t \<notin> dom tags) [''environment'', ''project'', ''owner'']) \<and>
      distinct (elems (MissingTags (example_record [''project'', ''owner'']))))"
proof -
  have h: "SendResource (example_record [''project'', ''owner''])
     \<in> set (worker example_aws [''environment'', ''project'', ''owner''] ''EC2'')"
    by (simp add: example_ec2)
  have d: "distinct [''environment'', ''project'', ''owner'']" by simp
  from missing_tags_invariant [OF h] d h show ?thesis by blast
qed

text \<open>
  C1 as stated promises a list without duplicates for every record. With the required tags
  owner, owner the record of the README's instance lists owner twice.
\<close>

theorem missing_tags_duplicates:
  "SendResource (example_record [''owner'', ''owner''])
     \<in> set (worker example_aws [''owner'', ''owner''] ''EC2'') \<and>
   \<not> distinct (elems (MissingTags (example_record [''owner'', ''owner''])))"
  by (simp add: example_ec2 example_record_def elems_def)

subsection \<open>Errors and the report\<close>

text \<open>
  C2. If a provider that was started sends an error, every run of \<^verbatim>\<open>AuditResources\<close> ends, and
  none returns a report: the call returns \<^verbatim>\<open>nil\<close> and one of the errors that the providers
  send (the one the loop received, which ends the call), whatever had been appended to the
  report before; the resources received so far are dropped with it. The only other end is
  the panic of a provider that dereferences nil, which ends the process.
\<close>

theorem error_discards_report:
  assumes "e0 \<in> reported env services requiredTags"
  shows "AuditResources env services requiredTags \<noteq> [] \<and>
         (\<forall>s' \<in> set (AuditResources env services requiredTags).
            (\<forall>rep. status s' \<noteq> Returned (Inr rep)) \<and>
            ((\<exists>e \<in> reported env services requiredTags. status s' = Returned (Inl e)) \<or>
             (status s' = Crashed \<and> may_panic env services requiredTags)))"
proof (intro conjI ballI)
  show "AuditResources env services requiredTags \<noteq> []"
    by (simp add: AuditResources_def outcomes_exist)
next
  fix s' assume out: "s' \<in> set (AuditResources env services requiredTags)"
  let ?s = "start env services requiredTags"
  from out have o: "s' \<in> set (outcomes ?s)" by (simp add: AuditResources_def)
  have c: "status ?s = Collecting" by (simp add: start_def)
  have p: "SendError e \<in> pending ?s \<longleftrightarrow> e \<in> reported env services requiredTags" for e
    by (auto simp: pending_start reported_def)
  from assms have "SendError e0 \<in> pending ?s" by (simp add: p)
  with o c have "status s' = Crashed \<or> (\<exists>e. status s' = Returned (Inl e) \<and> SendError e \<in> pending ?s)"
    by (rule error_is_fatal)
  moreover have "may_panic env services requiredTags" if "status s' = Crashed"
  proof (rule ccontr)
    assume "\<not> may_panic env services requiredTags"
    then have "Panic \<notin> pending ?s" by (auto simp: pending_start may_panic_def)
    with o c have "status s' \<noteq> Crashed" by (intro no_panic_no_crash [of s' ?s]) simp_all
    with that show False by simp
  qed
  ultimately have r: "(\<exists>e \<in> reported env services requiredTags. status s' = Returned (Inl e)) \<or>
             (status s' = Crashed \<and> may_panic env services requiredTags)"
    by (auto simp: p)
  then show "\<forall>rep. status s' \<noteq> Returned (Inr rep)" by auto
  from r show "(\<exists>e \<in> reported env services requiredTags. status s' = Returned (Inl e)) \<or>
             (status s' = Crashed \<and> may_panic env services requiredTags)" .
qed

text \<open>
  The bucket is read, the database service cannot be listed: whatever the order of the
  steps, the call returns the error of the listing.
\<close>

theorem error_discards_report_witness:
  "''failed to describe RDS instances: timeout'' \<in> reported example_aws [''S3'', ''rds''] [''owner''] \<and>
   AuditResources example_aws [''S3'', ''rds''] [''owner''] \<noteq> [] \<and>
   list_all (\<lambda>s'. status s' = Returned (Inl ''failed to describe RDS instances: timeout''))
     (AuditResources example_aws [''S3'', ''rds''] [''owner''])"
proof -
  have h: "''failed to describe RDS instances: timeout'' \<in> reported example_aws [''S3'', ''rds''] [''owner'']"
    by (simp add: reported_def worker_simps example_aws_def)
  have r: "reported example_aws [''S3'', ''rds''] [''owner''] = {''failed to describe RDS instances: timeout''}"
    by (auto simp: reported_def worker_simps example_aws_def)
  have p: "\<not> may_panic example_aws [''S3'', ''rds''] [''owner'']"
    by (simp add: may_panic_def worker_simps example_aws_def)
  from error_discards_report [OF h] h show ?thesis
    unfolding r list_all_iff using p by blast
qed

subsection \<open>A failure to read the tags of one resource\<close>

text \<open>
  C3. When \<^verbatim>\<open>GetBucketTagging\<close> fails for a bucket, the S3 provider sends the bucket with an
  empty tag map and every required tag missing; it sends one record for every bucket and
  never an error. When \<^verbatim>\<open>ListTags\<close> fails for a function, the Lambda provider sends the
  failure on \<^verbatim>\<open>errorChan\<close>; it sends records only for the functions whose tags it could
  read, and every audit that asks for Lambda ends without a report: it returns one of the
  errors that its providers send, this one among them, unless a provider panics. (Both
  for providers that do not panic on a nil name, key or value.)
\<close>

theorem tag_fetch_failure_policies:
  "(ListBuckets env = Inr buckets \<and> bucket \<in> set buckets \<and> Name bucket = Some name \<and>
    GetBucketTagging env (Some name) = Inl err \<and> Panic \<notin> set (auditS3 env requiredTags) \<longrightarrow>
      SendResource \<lparr>ServiceName = ''S3'', ResourceID = name, ResourceType = ''Bucket'',
                     Tags = Some Map.empty, MissingTags = Some requiredTags\<rparr>
        \<in> set (auditS3 env requiredTags) \<and>
      length (filter is_record (auditS3 env requiredTags)) = length buckets \<and>
      (\<forall>e. SendError e \<notin> set (auditS3 env requiredTags))) \<and>
   (ListFunctions env = Inr fns \<and> fn \<in> set fns \<and>
    FunctionName fn = Some fname \<and> ListTags env (FunctionArn fn) = Inl err' \<and>
    Panic \<notin> set (auditLambda env requiredTags) \<longrightarrow>
      SendError (''failed to get tags for Lambda function '' @ fname @ '': '' @ err')
        \<in> set (auditLambda env requiredTags) \<and>
      length (filter is_record (auditLambda env requiredTags))
        = length (filter (\<lambda>f. \<not> failed (ListTags env (FunctionArn f))) fns) \<and>
      ((\<exists>svc \<in> set services. ToLower svc = ''lambda'') \<longrightarrow>
         (''failed to get tags for Lambda function '' @ fname @ '': '' @ err')
           \<in> reported env services requiredTags \<and>
         AuditResources env services requiredTags \<noteq> [] \<and>
         (\<forall>s' \<in> set (AuditResources env services requiredTags).
            (\<forall>rep. status s' \<noteq> Returned (Inr rep)) \<and>
            ((\<exists>e \<in> reported env services requiredTags. status s' = Returned (Inl e)) \<or>
             (status s' = Crashed \<and> may_panic env services requiredTags)))))"
proof (intro conjI impI allI; (elim conjE)?)
  assume "ListBuckets env = Inr buckets" "bucket \<in> set buckets" "Name bucket = Some name"
    "GetBucketTagging env (Some name) = Inl err" "Panic \<notin> set (auditS3 env requiredTags)"
  then show "SendResource \<lparr>ServiceName = ''S3'', ResourceID = name, ResourceType = ''Bucket'',
                     Tags = Some Map.empty, MissingTags = Some requiredTags\<rparr>
        \<in> set (auditS3 env requiredTags)"
    by (simp add: auditS3_def s3_buckets_degraded)
next
  assume "ListBuckets env = Inr buckets" "Panic \<notin> set (auditS3 env requiredTags)"
  then show "length (filter is_record (auditS3 env requiredTags)) = length buckets"
    by (simp add: auditS3_def s3_buckets_count)
next
  fix e
  assume "ListBuckets env = Inr buckets"
  then show "SendError e \<notin> set (auditS3 env requiredTags)"
    by (simp add: auditS3_def s3_buckets_silent)
next
  assume l: "ListFunctions env = Inr fns" "fn \<in> set fns"
    "FunctionName fn = Some fname" "ListTags env (FunctionArn fn) = Inl err'"
    "Panic \<notin> set (auditLambda env requiredTags)"
  from l(1,5) have "Panic \<notin> set (lambda_functions env requiredTags fns)"
    by (simp add: auditLambda_def)
  with l(2,3,4) have "SendError (''failed to get tags for Lambda function '' @ fname @ '': '' @ err')
        \<in> set (lambda_functions env requiredTags fns)"
    by (rule lambda_functions_error)
  with l(1) show "SendError (''failed to get tags for Lambda function '' @ fname @ '': '' @ err')
        \<in> set (auditLambda env requiredTags)"
    by (simp add: auditLambda_def)
next
  assume "ListFunctions env = Inr fns" "Panic \<notin> set (auditLambda env requiredTags)"
  then show "length (filter is_record (auditLambda env requiredTags))
        = length (filter (\<lambda>f. \<not> failed (ListTags env (FunctionArn f))) fns)"
    by (simp add: auditLambda_def lambda_functions_count)
next
  assume l: "ListFunctions env = Inr fns" "fn \<in> set fns"
    "FunctionName fn = Some fname" "ListTags env (FunctionArn fn) = Inl err'"
    "Panic \<notin> set (auditLambda env requiredTags)"
    and s: "\<exists>svc \<in> set services. ToLower svc = ''lambda''"
  from l(1,5) have "Panic \<notin> set (lambda_functions env requiredTags fns)"
    by (simp add: auditLambda_def)
  with l(2,3,4) have "SendError (''failed to get tags for Lambda function '' @ fname @ '': '' @ err')
        \<in> set (lambda_functions env requiredTags fns)"
    by (rule lambda_functions_error)
  with l(1) have "SendError (''failed to get tags for Lambda function '' @ fname @ '': '' @ err')
        \<in> set (auditLambda env requiredTags)"
    by (simp add: auditLambda_def)
  moreover from s obtain svc where "svc \<in> set services"
    and "worker env requiredTags svc = auditLambda env requiredTags"
    by (auto simp: worker_lambda)
  ultimately have "\<exists>svc \<in> set services.
      SendError (''failed to get tags for Lambda function '' @ fname @ '': '' @ err')
        \<in> set (worker env requiredTags svc)"
    by metis
  then show r: "(''failed to get tags for Lambda function '' @ fname @ '': '' @ err')
      \<in> reported env services requiredTags"
    unfolding reported_def by (rule CollectI)
  let ?s = "start env services requiredTags"
  have q: "SendError e \<in> pending ?s \<longleftrightarrow> e \<in> reported env services requiredTags" for e
    by (auto simp: pending_start reported_def)
  from r have p: "SendError (''failed to get tags for Lambda function '' @ fname @ '': '' @ err')
      \<in> pending ?s"
    by (simp only: q)
  show "AuditResources env services requiredTags \<noteq> []"
    by (simp add: AuditResources_def outcomes_exist)
  show "\<forall>s' \<in> set (AuditResources env services requiredTags).
            (\<forall>rep. status s' \<noteq> Returned (Inr rep)) \<and>
            ((\<exists>e \<in> reported env services requiredTags. status s' = Returned (Inl e)) \<or>
             (status s' = Crashed \<and> may_panic env services requiredTags))"
  proof
    fix s'
    assume "s' \<in> set (AuditResources env services requiredTags)"
    then have o: "s' \<in> set (outcomes ?s)"
      by (simp add: AuditResources_def)
    have c: "status ?s = Collecting"
      by (simp add: start_def)
    from o c p have "status s' = Crashed \<or>
        (\<exists>e. status s' = Returned (Inl e) \<and> SendError e \<in> pending ?s)"
      by (rule error_is_fatal)
    moreover have "may_panic env services requiredTags" if "status s' = Crashed"
    proof (rule ccontr)
      assume "\<not> may_panic env services requiredTags"
      then have "Panic \<notin> pending ?s" by (auto simp: pending_start may_panic_def)
      with o c have "status s' \<noteq> Crashed" by (intro no_panic_no_crash [of s' ?s]) simp_all
      with that show False by simp
    qed
    ultimately have "(\<exists>e \<in> reported env services requiredTags. status s' = Returned (Inl e)) \<or>
             (status s' = Crashed \<and> may_panic env services requiredTags)"
      by (auto simp: q)
    then show "(\<forall>rep. status s' \<noteq> Returned (Inr rep)) \<and>
            ((\<exists>e \<in> reported env services requiredTags. status s' = Returned (Inl e)) \<or>
             (status s' = Crashed \<and> may_panic env services requiredTags))"
      by auto
  qed
qed

theorem tag_fetch_failure_policies_witness:
  "ListBuckets example_aws = Inr [\<lparr>Name = Some ''logs''\<rparr>] \<and>
   GetBucketTagging example_aws (Some ''logs'') = Inl ''NoSuchTagSet'' \<and>
   Panic \<notin> set (auditS3 example_aws [''owner'']) \<and>
   SendResource \<lparr>ServiceName = ''S3'', ResourceID = ''logs'', ResourceType = ''Bucket'',
                  Tags = Some Map.empty, MissingTags = Some [''owner'']\<rparr>
     \<in> set (auditS3 example_aws [''owner'']) \<and>
   length (filter is_record (auditS3 example_aws [''owner''])) = 1 \<and>
   ListTags example_aws (Some ''arn:resize'') = Inl ''AccessDenied'' \<and>
   Panic \<notin> set (auditLambda example_aws [''owner'']) \<and>
   SendError ''failed to get tags for Lambda function resize: AccessDenied''
     \<in> set (auditLambda example_aws [''owner'']) \<and>
   length (filter is_record (auditLambda example_aws [''owner''])) = 0 \<and>
   ''failed to get tags for Lambda function resize: AccessDenied''
     \<in> reported example_aws [''Lambda''] [''owner''] \<and>
   \<not> may_panic example_aws [''Lambda''] [''owner''] \<and>
   AuditResources example_aws [''Lambda''] [''owner''] \<noteq> [] \<and>
   list_all (\<lambda>s'. status s' = Returned (Inl ''failed to get tags for Lambda function resize: AccessDenied''))
     (AuditResources example_aws [''Lambda''] [''owner''])"
proof -
  have s3: "auditS3 example_aws [''owner''] = worker example_aws [''owner''] ''s3''"
    and la: "auditLambda example_aws [''owner''] = worker example_aws [''owner''] ''Lambda''"
    by (simp_all add: worker_def lower_simps)
  have 1: "ListBuckets example_aws = Inr [\<lparr>Name = Some ''logs''\<rparr>]"
    and 2: "GetBucketTagging example_aws (Some ''logs'') = Inl ''NoSuchTagSet''"
    and 3: "ListTags example_aws (Some ''arn:resize'') = Inl ''AccessDenied''"
    and 4: "ListFunctions example_aws =
        Inr [\<lparr>FunctionName = Some ''resize'', FunctionArn = Some ''arn:resize''\<rparr>,
             \<lparr>FunctionName = Some ''notify'', FunctionArn = Some ''arn:notify''\<rparr>]"
    by (simp_all add: example_aws_def)
  have 5: "Panic \<notin> set (auditS3 example_aws [''owner''])"
    and 6: "Panic \<notin> set (auditLambda example_aws [''owner''])"
    unfolding s3 la example_s3 example_lambda by simp_all
  have 7: "\<exists>svc \<in> set [''Lambda'']. ToLower svc = ''lambda''"
    by (simp add: lower_simps)
  from tag_fetch_failure_policies
    [of example_aws "[\<lparr>Name = Some ''logs''\<rparr>]" "\<lparr>Name = Some ''logs''\<rparr>" "''logs''" "''NoSuchTagSet''"
      "[''owner'']"
      "[\<lparr>FunctionName = Some ''resize'', FunctionArn = Some ''arn:resize''\<rparr>,
        \<lparr>FunctionName = Some ''notify'', FunctionArn = Some ''arn:notify''\<rparr>]"
      "\<lparr>FunctionName = Some ''resize'', FunctionArn = Some ''arn:resize''\<rparr>" "''resize''" "''AccessDenied''"
      "[''Lambda'']"]
    1 2 3 4 5 6
  have c: "SendResource \<lparr>ServiceName = ''S3'', ResourceID = ''logs'', ResourceType = ''Bucket'',
                  Tags = Some Map.empty, MissingTags = Some [''owner'']\<rparr>
        \<in> set (auditS3 example_aws [''owner''])"
    and d: "length (filter is_record (auditS3 example_aws [''owner''])) = 1"
    and e: "SendError ''failed to get tags for Lambda function resize: AccessDenied''
        \<in> set (auditLambda example_aws [''owner''])"
    and f: "length (filter is_record (auditLambda example_aws [''owner'']))
        = length (filter (\<lambda>f. \<not> failed (ListTags example_aws (FunctionArn f)))
            [\<lparr>FunctionName = Some ''resize'', FunctionArn = Some ''arn:resize''\<rparr>,
             \<lparr>FunctionName = Some ''notify'', FunctionArn = Some ''arn:notify''\<rparr>])"
    and g: "(\<exists>svc \<in> set [''Lambda'']. ToLower svc = ''lambda'') \<longrightarrow>
         ''failed to get tags for Lambda function resize: AccessDenied''
           \<in> reported example_aws [''Lambda''] [''owner''] \<and>
         AuditResources example_aws [''Lambda''] [''owner''] \<noteq> [] \<and>
         (\<forall>s' \<in> set (AuditResources example_aws [''Lambda''] [''owner'']).
            (\<forall>rep. status s' \<noteq> Returned (Inr rep)) \<and>
            ((\<exists>e \<in> reported example_aws [''Lambda''] [''owner'']. status s' = Returned (Inl e)) \<or>
             (status s' = Crashed \<and> may_panic example_aws [''Lambda''] [''owner''])))"
    by simp_all
  from f have f': "length (filter is_record (auditLambda example_aws [''owner''])) = 0"
    by (simp add: example_aws_def)
  from g 7 have h: "AuditResources example_aws [''Lambda''] [''owner''] \<noteq> []"
    and i: "''failed to get tags for Lambda function resize: AccessDenied''
           \<in> reported example_aws [''Lambda''] [''owner'']"
    by blast+
  have k: "\<not> may_panic example_aws [''Lambda''] [''owner'']"
    by (simp add: may_panic_def example_lambda)
  have j: "list_all (\<lambda>s'. status s' = Returned (Inl ''failed to get tags for Lambda function resize: AccessDenied''))
     (AuditResources example_aws [''Lambda''] [''owner''])"
    by (simp add: example_lambda_run)
  from 1 2 3 5 6 c d e f' h i j k show ?thesis
    by blast
qed

subsection \<open>Service names\<close>

text \<open>
  C4. Service identifiers are matched case-insensitively: an identifier that matches ec2,
  s3, rds or lambda in any letter case starts the provider of that service, whose first
  action is the listing call of the service, and two identifiers with the same lower-case
  form start the same provider. No identifier is validated. \<^verbatim>\<open>AuditResources\<close> starts one
  goroutine for each requested identifier, known or not; the goroutine of an unknown
  identifier has nothing to do: it calls no service and sends neither a resource nor an
  error. When every requested identifier is unknown, the call has one run: it returns the
  empty report (no resources) and no error, and no service has been called.
\<close>

theorem unknown_services_ignored:
  "(ignoring_case svc ''ec2'' \<longrightarrow>
      worker env requiredTags svc = auditEC2 env requiredTags \<and>
      (\<exists>rest. worker env requiredTags svc = Call DescribeInstancesInput # rest)) \<and>
   (ignoring_case svc ''s3'' \<longrightarrow>
      worker env requiredTags svc = auditS3 env requiredTags \<and>
      (\<exists>rest. worker env requiredTags svc = Call ListBucketsInput # rest)) \<and>
   (ignoring_case svc ''rds'' \<longrightarrow>
      worker env requiredTags svc = auditRDS env requiredTags \<and>
      (\<exists>rest. worker env requiredTags svc = Call DescribeDBInstancesInput # rest)) \<and>
   (ignoring_case svc ''lambda'' \<longrightarrow>
      worker env requiredTags svc = auditLambda env requiredTags \<and>
      (\<exists>rest. worker env requiredTags svc = Call ListFunctionsInput # rest)) \<and>
   (ToLower a = ToLower b \<longrightarrow> worker env requiredTags a = worker env requiredTags b) \<and>
   (\<not> known svc \<longrightarrow> worker env requiredTags svc = []) \<and>
   tasks (start env services requiredTags) = map (worker env requiredTags) services \<and>
   ((\<forall>svc \<in> set services. \<not> known svc) \<longrightarrow>
      AuditResources env services requiredTags =
        [\<lparr>tasks = map (\<lambda>svc. []) services, report = \<lparr>Resources = None\<rparr>, calls = [],
          status = Returned (Inr \<lparr>Resources = None\<rparr>)\<rparr>])"
proof (intro conjI impI)
  assume "ignoring_case svc ''ec2''"
  then have "ToLower svc = ''ec2''" by (simp add: ToLower_ec2)
  then show e: "worker env requiredTags svc = auditEC2 env requiredTags"
    by (simp add: worker_def)
  show "\<exists>rest. worker env requiredTags svc = Call DescribeInstancesInput # rest"
    unfolding e by (rule listing_first)
next
  assume "ignoring_case svc ''s3''"
  then have "ToLower svc = ''s3''" by (simp add: ToLower_s3)
  then show e: "worker env requiredTags svc = auditS3 env requiredTags"
    by (simp add: worker_def)
  show "\<exists>rest. worker env requiredTags svc = Call ListBucketsInput # rest"
    unfolding e by (rule listing_first)
next
  assume "ignoring_case svc ''rds''"
  then have "ToLower svc = ''rds''" by (simp add: ToLower_rds)
  then show e: "worker env requiredTags svc = auditRDS env requiredTags"
    by (simp add: worker_def)
  show "\<exists>rest. worker env requiredTags svc = Call DescribeDBInstancesInput # rest"
    unfolding e by (rule listing_first)
next
  assume "ignoring_case svc ''lambda''"
  then have "ToLower svc = ''lambda''" by (simp add: ToLower_lambda)
  then show e: "worker env requiredTags svc = auditLambda env requiredTags"
    by (simp add: worker_def)
  show "\<exists>rest. worker env requiredTags svc = Call ListFunctionsInput # rest"
    unfolding e by (rule listing_first)
next
  assume "ToLower a = ToLower b"
  then show "worker env requiredTags a = worker env requiredTags b"
    by (simp add: worker_def)
next
  assume "\<not> known svc"
  then show "worker env requiredTags svc = []"
    by (simp add: worker_def known_ToLower)
next
  show "tasks (start env services requiredTags) = map (worker env requiredTags) services"
    by (simp add: start_def)
next
  assume u: "\<forall>svc \<in> set services. \<not> known svc"
  then have "map (worker env requiredTags) services = map (\<lambda>svc. []) services"
    by (intro map_cong) (auto simp: worker_def known_ToLower)
  then have t: "tasks (start env services requiredTags) = map (\<lambda>svc. []) services"
    by (simp add: start_def)
  then have "list_all (\<lambda>t. t = []) (tasks (start env services requiredTags))"
    by (simp add: list_all_iff)
  moreover have "status (start env services requiredTags) = Collecting"
    by (simp add: start_def)
  ultimately have "outcomes (start env services requiredTags) =
      [(start env services requiredTags)\<lparr>status := Returned (Inr (report (start env services requiredTags)))\<rparr>]"
    by (intro idle_outcomes)
  with t show "AuditResources env services requiredTags =
        [\<lparr>tasks = map (\<lambda>svc. []) services, report = \<lparr>Resources = None\<rparr>, calls = [],
          status = Returned (Inr \<lparr>Resources = None\<rparr>)\<rparr>]"
    by (simp add: AuditResources_def start_def)
qed

theorem unknown_services_ignored_witness:
  "ignoring_case ''Ec2'' ''ec2'' \<and>
   worker example_aws [''environment'', ''project'', ''owner''] ''Ec2'' =
     [Call DescribeInstancesInput, SendResource (example_record [''project'', ''owner''])] \<and>
   ignoring_case ''LAMBDA'' ''lambda'' \<and>
   (\<exists>rest. worker example_aws [''owner''] ''LAMBDA'' = Call ListFunctionsInput # rest) \<and>
   \<not> known ''dynamodb'' \<and> \<not> known ''sqs'' \<and>
   worker example_aws [''owner''] ''dynamodb'' = [] \<and>
   AuditResources example_aws [''dynamodb'', ''sqs''] [''owner''] =
     [\<lparr>tasks = [[], []], report = \<lparr>Resources = None\<rparr>, calls = [],
       status = Returned (Inr \<lparr>Resources = None\<rparr>)\<rparr>]"
proof -
  have 1: "ignoring_case ''Ec2'' ''ec2''" and 2: "ignoring_case ''LAMBDA'' ''lambda''"
    by (simp_all add: ignoring_case_def same_letter_def capital_def)
  have k: "\<not> known ''dynamodb''" "\<not> known ''sqs''"
    by (simp_all add: known_def ignoring_case_def same_letter_def capital_def)
  then have a: "\<forall>svc \<in> set [''dynamodb'', ''sqs'']. \<not> known svc" by simp
  from unknown_services_ignored [of "''Ec2''" example_aws "[''environment'', ''project'', ''owner'']"] 1
  have "worker example_aws [''environment'', ''project'', ''owner''] ''Ec2'' =
      auditEC2 example_aws [''environment'', ''project'', ''owner'']"
    by blast
  moreover have "auditEC2 example_aws [''environment'', ''project'', ''owner''] =
      worker example_aws [''environment'', ''project'', ''owner''] ''EC2''"
    by (simp add: worker_def lower_simps)
  ultimately have 3: "worker example_aws [''environment'', ''project'', ''owner''] ''Ec2'' =
     [Call DescribeInstancesInput, SendResource (example_record [''project'', ''owner''])]"
    by (simp add: example_ec2)
  from unknown_services_ignored [of "''LAMBDA''" example_aws "[''owner'']"] 2
  have 4: "\<exists>rest. worker example_aws [''owner''] ''LAMBDA'' = Call ListFunctionsInput # rest"
    by blast
  from unknown_services_ignored [of "''dynamodb''" example_aws "[''owner'']" _ _ "[''dynamodb'', ''sqs'']"] k a
  have 5: "worker example_aws [''owner''] ''dynamodb'' = []"
    and 6: "AuditResources example_aws [''dynamodb'', ''sqs''] [''owner''] =
     [\<lparr>tasks = [[], []], report = \<lparr>Resources = None\<rparr>, calls = [],
       status = Returned (Inr \<lparr>Resources = None\<rparr>)\<rparr>]"
    by simp_all
  from 1 2 3 4 5 6 k show ?thesis by blast
qed

text \<open>
  C4 as stated has no task produced for an unknown identifier. \<^verbatim>\<open>AuditResources\<close> runs
  \<^verbatim>\<open>wg.Add(1)\<close> and \<^verbatim>\<open>go func\<close> for every element of \<^verbatim>\<open>services\<close> before the name is looked
  at: for the single unknown identifier dynamodb one goroutine is started, which ends
  without doing anything.
\<close>

theorem unknown_service_starts_goroutine:
  "\<not> known ''dynamodb'' \<and>
   tasks (start example_aws [''dynamodb''] [''owner'']) = [[]] \<and>
   length (tasks (start example_aws [''dynamodb''] [''owner''])) = 1"
  by (simp add: start_def worker_def known_ToLower lower_simps)

subsection \<open>Goroutines left behind\<close>

text \<open>
  C5 asks that every provider has ended when \<^verbatim>\<open>AuditResources\<close> returns. That holds when the
  call returns a report (\<open>success_joins_producers\<close>). It fails when the call returns an
  error: for the two functions whose tags cannot be read, the only run returns the error
  of the first function while the Lambda goroutine still has the second \<^verbatim>\<open>ListTags\<close> call and
  its send on \<^verbatim>\<open>errorChan\<close> to do, and that send is never received.
\<close>

theorem producer_left_blocked:
  "AuditResources example_aws [''Lambda''] requiredTags =
     [\<lparr>tasks = [[Call (ListTagsInput (Some ''arn:notify'')),
                  SendError ''failed to get tags for Lambda function notify: AccessDenied'']],
       report = \<lparr>Resources = None\<rparr>,
       calls = [ListFunctionsInput, ListTagsInput (Some ''arn:resize'')],
       status = Returned (Inl ''failed to get tags for Lambda function resize: AccessDenied'')\<rparr>] \<and>
   blocks_forever [Call (ListTagsInput (Some ''arn:notify'')),
                   SendError ''failed to get tags for Lambda function notify: AccessDenied'']"
  by (simp add: example_lambda_run)

subsection \<open>Configuration errors\<close>

text \<open>
  C6. A missing \<^verbatim>\<open>--required-tags\<close> is reported before anything runs: no service is called,
  the message is printed and the exit status is 1. An unknown output format also ends in a
  non-zero exit status with nothing written for the report, but it is only found by the
  \<^verbatim>\<open>switch\<close> that follows the audit. With the flag given and an unknown format, the command
  has a run for every run of the audit, and no other: when the audit returns an error,
  \<^verbatim>\<open>failed to audit resources:\<close> followed by that error is reported, with exit status 1;
  when the audit returns a report, \<^verbatim>\<open>unsupported output format:\<close> followed by the format is
  reported, with exit status 1, all goroutines have ended and every request of every
  requested provider has been made; a panic (in a provider, or in \<^verbatim>\<open>NewAuditor\<close> when the
  configuration cannot be loaded) ends the process with status 2. So whenever the error of
  the format is reported, the audit has succeeded before.
\<close>

theorem configuration_errors:
  "(required_tags args = None \<longrightarrow>
      main env encode orders w args =
        [(\<lparr>requests = [], ending = Done (Some flag_missing),
           stdout_after = Fprint w (flag_missing @ [newline])\<rparr>, 1)]) \<and>
   (required_tags args = Some requiredTags \<and>
    requested_format args \<notin> {''json'', ''csv'', ''text''} \<longrightarrow>
      main env encode orders w args \<noteq> [] \<and>
      (LoadDefaultConfig env \<noteq> None \<longrightarrow>
         main env encode orders w args =
           [(\<lparr>requests = [], ending = Panicked, stdout_after = w\<rparr>, 2)]) \<and>
      (LoadDefaultConfig env = None \<longrightarrow>
         (\<forall>(f, code) \<in> set (main env encode orders w args).
            \<exists>s' \<in> set (AuditResources env (requested_services args) requiredTags).
              requests f = calls s' \<and> stdout_after f = w \<and>
              ((\<exists>e. status s' = Returned (Inl e) \<and>
                    ending f = Done (Some (''failed to audit resources: '' @ e)) \<and> code = 1) \<or>
               (\<exists>rep. status s' = Returned (Inr rep) \<and>
                    ending f = Done (Some (''unsupported output format: '' @ requested_format args)) \<and>
                    code = 1 \<and> list_all (\<lambda>t. t = []) (tasks s') \<and>
                    (\<forall>svc \<in> set (requested_services args). \<forall>c.
                       Call c \<in> set (worker env requiredTags svc) \<longrightarrow> c \<in> set (calls s'))) \<or>
               (status s' = Crashed \<and> ending f = Panicked \<and> code = 2))) \<and>
         (\<forall>s' \<in> set (AuditResources env (requested_services args) requiredTags).
            (\<forall>e. status s' = Returned (Inl e) \<longrightarrow>
               (\<lparr>requests = calls s', ending = Done (Some (''failed to audit resources: '' @ e)),
                 stdout_after = w\<rparr>, 1) \<in> set (main env encode orders w args)) \<and>
            (\<forall>rep. status s' = Returned (Inr rep) \<longrightarrow>
               (\<lparr>requests = calls s',
                 ending = Done (Some (''unsupported output format: '' @ requested_format args)),
                 stdout_after = w\<rparr>, 1) \<in> set (main env encode orders w args)))) \<and>
      (\<forall>(f, code) \<in> set (main env encode orders w args).
         code \<noteq> 0 \<and> stdout_after f = w \<and>
         (ending f = Done (Some (''unsupported output format: '' @ requested_format args)) \<longrightarrow>
            (\<exists>s' \<in> set (AuditResources env (requested_services args) requiredTags).
               (\<exists>rep. status s' = Returned (Inr rep)) \<and> requests f = calls s' \<and>
               list_all (\<lambda>t. t = []) (tasks s')) \<and>
            (\<forall>svc \<in> set (requested_services args). \<forall>c.
               Call c \<in> set (worker env requiredTags svc) \<longrightarrow> c \<in> set (requests f)))))"
proof (intro conjI impI; (elim conjE)?)
  assume "required_tags args = None"
  then show "main env encode orders w args =
        [(\<lparr>requests = [], ending = Done (Some flag_missing),
           stdout_after = Fprint w (flag_missing @ [newline])\<rparr>, 1)]"
    by (rule main_flag_missing)
next
  assume t: "required_tags args = Some requiredTags"
  have "runAudit env encode orders w (requested_services args) requiredTags (requested_format args) \<noteq> []"
    by (simp add: runAudit_def AuditResources_def outcomes_exist split: option.splits)
  with t show "main env encode orders w args \<noteq> []"
    by (simp add: main_flag_given)
next
  assume "required_tags args = Some requiredTags" and "LoadDefaultConfig env \<noteq> None"
  then show "main env encode orders w args =
           [(\<lparr>requests = [], ending = Panicked, stdout_after = w\<rparr>, 2)]"
    by (rule main_no_config)
next
  assume t: "required_tags args = Some requiredTags"
    and u: "requested_format args \<notin> {''json'', ''csv'', ''text''}"
    and l: "LoadDefaultConfig env = None"
  show "\<forall>(f, code) \<in> set (main env encode orders w args).
            \<exists>s' \<in> set (AuditResources env (requested_services args) requiredTags).
              requests f = calls s' \<and> stdout_after f = w \<and>
              ((\<exists>e. status s' = Returned (Inl e) \<and>
                    ending f = Done (Some (''failed to audit resources: '' @ e)) \<and> code = 1) \<or>
               (\<exists>rep. status s' = Returned (Inr rep) \<and>
                    ending f = Done (Some (''unsupported output format: '' @ requested_format args)) \<and>
                    code = 1 \<and> list_all (\<lambda>t. t = []) (tasks s') \<and>
                    (\<forall>svc \<in> set (requested_services args). \<forall>c.
                       Call c \<in> set (worker env requiredTags svc) \<longrightarrow> c \<in> set (calls s'))) \<or>
               (status s' = Crashed \<and> ending f = Panicked \<and> code = 2))"
  proof (rule ballI, rule case_prodI2)
    fix x f code
    assume "x \<in> set (main env encode orders w args)" and "x = (f, code)"
    then have "(f, code) \<in> set (main env encode orders w args)" by simp
    then show "\<exists>s' \<in> set (AuditResources env (requested_services args) requiredTags).
              requests f = calls s' \<and> stdout_after f = w \<and>
              ((\<exists>e. status s' = Returned (Inl e) \<and>
                    ending f = Done (Some (''failed to audit resources: '' @ e)) \<and> code = 1) \<or>
               (\<exists>rep. status s' = Returned (Inr rep) \<and>
                    ending f = Done (Some (''unsupported output format: '' @ requested_format args)) \<and>
                    code = 1 \<and> list_all (\<lambda>t. t = []) (tasks s') \<and>
                    (\<forall>svc \<in> set (requested_services args). \<forall>c.
                       Call c \<in> set (worker env requiredTags svc) \<longrightarrow> c \<in> set (calls s'))) \<or>
               (status s' = Crashed \<and> ending f = Panicked \<and> code = 2))"
      by (rule run_of_main [OF t u l])
  qed
next
  assume t: "required_tags args = Some requiredTags"
    and u: "requested_format args \<notin> {''json'', ''csv'', ''text''}"
    and l: "LoadDefaultConfig env = None"
  show "\<forall>s' \<in> set (AuditResources env (requested_services args) requiredTags).
            (\<forall>e. status s' = Returned (Inl e) \<longrightarrow>
               (\<lparr>requests = calls s', ending = Done (Some (''failed to audit resources: '' @ e)),
                 stdout_after = w\<rparr>, 1) \<in> set (main env encode orders w args)) \<and>
            (\<forall>rep. status s' = Returned (Inr rep) \<longrightarrow>
               (\<lparr>requests = calls s',
                 ending = Done (Some (''unsupported output format: '' @ requested_format args)),
                 stdout_after = w\<rparr>, 1) \<in> set (main env encode orders w args))"
  proof (intro ballI conjI allI impI)
    fix s' e
    assume "s' \<in> set (AuditResources env (requested_services args) requiredTags)"
      and "status s' = Returned (Inl e)"
    then show "(\<lparr>requests = calls s', ending = Done (Some (''failed to audit resources: '' @ e)),
                 stdout_after = w\<rparr>, 1) \<in> set (main env encode orders w args)"
      by (rule failed_run_in_main [OF t u l])
  next
    fix s' rep
    assume "s' \<in> set (AuditResources env (requested_services args) requiredTags)"
      and "status s' = Returned (Inr rep)"
    then show "(\<lparr>requests = calls s',
                 ending = Done (Some (''unsupported output format: '' @ requested_format args)),
                 stdout_after = w\<rparr>, 1) \<in> set (main env encode orders w args)"
      by (rule successful_run_in_main [OF t u l])
  qed
next
  assume t: "required_tags args = Some requiredTags"
    and u: "requested_format args \<notin> {''json'', ''csv'', ''text''}"
  let ?fmt = "requested_format args" and ?svcs = "requested_services args"
  let ?audit = "AuditResources env ?svcs requiredTags"
  show "\<forall>(f, code) \<in> set (main env encode orders w args).
         code \<noteq> 0 \<and> stdout_after f = w \<and>
         (ending f = Done (Some (''unsupported output format: '' @ ?fmt)) \<longrightarrow>
            (\<exists>s' \<in> set ?audit.
               (\<exists>rep. status s' = Returned (Inr rep)) \<and> requests f = calls s' \<and>
               list_all (\<lambda>t. t = []) (tasks s')) \<and>
            (\<forall>svc \<in> set ?svcs. \<forall>c.
               Call c \<in> set (worker env requiredTags svc) \<longrightarrow> c \<in> set (requests f)))"
  proof (rule ballI, rule case_prodI2)
    fix x f code
    assume "x \<in> set (main env encode orders w args)" and "x = (f, code)"
    then have m: "(f, code) \<in> set (main env encode orders w args)" by simp
    show "code \<noteq> 0 \<and> stdout_after f = w \<and>
         (ending f = Done (Some (''unsupported output format: '' @ ?fmt)) \<longrightarrow>
            (\<exists>s' \<in> set ?audit.
               (\<exists>rep. status s' = Returned (Inr rep)) \<and> requests f = calls s' \<and>
               list_all (\<lambda>t. t = []) (tasks s')) \<and>
            (\<forall>svc \<in> set ?svcs. \<forall>c.
               Call c \<in> set (worker env requiredTags svc) \<longrightarrow> c \<in> set (requests f)))"
    proof (cases "LoadDefaultConfig env = None")
      case False
      with m t have "f = \<lparr>requests = [], ending = Panicked, stdout_after = w\<rparr>" and "code = 2"
        by (simp_all add: main_no_config)
      then show ?thesis by simp
    next
      case True
      from run_of_main [OF t u True m] obtain s' where s': "s' \<in> set ?audit"
        and q: "requests f = calls s'" and w: "stdout_after f = w"
        and d: "(\<exists>e. status s' = Returned (Inl e) \<and>
                    ending f = Done (Some (''failed to audit resources: '' @ e)) \<and> code = 1) \<or>
               (\<exists>rep. status s' = Returned (Inr rep) \<and>
                    ending f = Done (Some (''unsupported output format: '' @ ?fmt)) \<and>
                    code = 1 \<and> list_all (\<lambda>t. t = []) (tasks s') \<and>
                    (\<forall>svc \<in> set ?svcs. \<forall>c.
                       Call c \<in> set (worker env requiredTags svc) \<longrightarrow> c \<in> set (calls s'))) \<or>
               (status s' = Crashed \<and> ending f = Panicked \<and> code = 2)"
        by blast
      from d consider
          (failed) e where "ending f = Done (Some (''failed to audit resources: '' @ e))" "code = 1"
        | (succeeded) rep where "status s' = Returned (Inr rep)" "code = 1"
            "list_all (\<lambda>t. t = []) (tasks s')"
            "\<forall>svc \<in> set ?svcs. \<forall>c.
                Call c \<in> set (worker env requiredTags svc) \<longrightarrow> c \<in> set (calls s')"
        | (crashed) "ending f = Panicked" "code = 2"
        by blast
      then show ?thesis
      proof cases
        case failed
        from failed(1) have "ending f \<noteq> Done (Some (''unsupported output format: '' @ ?fmt))"
          using errors_differ [of e ?fmt] by simp
        with failed(2) w show ?thesis by simp
      next
        case crashed
        with w show ?thesis by simp
      next
        case succeeded
        from s' succeeded(1,3) q have "\<exists>s' \<in> set ?audit.
               (\<exists>rep. status s' = Returned (Inr rep)) \<and> requests f = calls s' \<and>
               list_all (\<lambda>t. t = []) (tasks s')"
          by blast
        with succeeded(2,4) w q show ?thesis by simp
      qed
    qed
  qed
qed


text \<open>
  The command without flags; with the format xml for the instances, where the audit
  succeeds; and with the format xml for the databases, where the audit fails.
\<close>

theorem configuration_errors_witness:
  "required_tags no_flags = None \<and>
   main example_aws no_encoder [] stdout no_flags =
     [(\<lparr>requests = [], ending = Done (Some flag_missing),
        stdout_after = Fprint stdout (flag_missing @ [newline])\<rparr>, 1)] \<and>
   LoadDefaultConfig example_aws = None \<and>
   required_tags xml_flags = Some [''owner''] \<and>
   requested_format xml_flags \<notin> {''json'', ''csv'', ''text''} \<and>
   main example_aws no_encoder [] stdout xml_flags \<noteq> [] \<and>
   list_all (\<lambda>s'. status s' = Returned (Inr \<lparr>Resources = Some [example_record [''owner'']]\<rparr>) \<and>
                   calls s' = [DescribeInstancesInput])
     (AuditResources example_aws (requested_services xml_flags) [''owner'']) \<and>
   (\<lparr>requests = [DescribeInstancesInput],
     ending = Done (Some (''unsupported output format: '' @ requested_format xml_flags)),
     stdout_after = stdout\<rparr>, 1) \<in> set (main example_aws no_encoder [] stdout xml_flags) \<and>
   list_all (\<lambda>(f, code). code = 1 \<and> stdout_after f = stdout \<and>
               ending f = Done (Some ''unsupported output format: xml'') \<and>
               requests f = [DescribeInstancesInput])
     (main example_aws no_encoder [] stdout xml_flags) \<and>
   required_tags xml_rds_flags = Some [''owner''] \<and>
   requested_format xml_rds_flags \<notin> {''json'', ''csv'', ''text''} \<and>
   list_all (\<lambda>s'. status s' = Returned (Inl ''failed to describe RDS instances: timeout'') \<and>
                   calls s' = [DescribeDBInstancesInput])
     (AuditResources example_aws (requested_services xml_rds_flags) [''owner'']) \<and>
   (\<lparr>requests = [DescribeDBInstancesInput],
     ending = Done (Some (''failed to audit resources: '' @ ''failed to describe RDS instances: timeout'')),
     stdout_after = stdout\<rparr>, 1) \<in> set (main example_aws no_encoder [] stdout xml_rds_flags) \<and>
   list_all (\<lambda>(f, code). code = 1 \<and> stdout_after f = stdout \<and>
               ending f = Done (Some ''failed to audit resources: failed to describe RDS instances: timeout'') \<and>
               requests f = [DescribeDBInstancesInput])
     (main example_aws no_encoder [] stdout xml_rds_flags)"
proof -
  let ?ok = "\<lparr>tasks = [[]], report = \<lparr>Resources = Some [example_record [''owner'']]\<rparr>,
       calls = [DescribeInstancesInput],
       status = Returned (Inr \<lparr>Resources = Some [example_record [''owner'']]\<rparr>)\<rparr>"
  let ?ko = "\<lparr>tasks = [[]], report = \<lparr>Resources = None\<rparr>, calls = [DescribeDBInstancesInput],
       status = Returned (Inl ''failed to describe RDS instances: timeout'')\<rparr>"
  have 1: "required_tags no_flags = None"
    by (simp add: no_flags_def)
  have 2: "required_tags xml_flags = Some [''owner'']"
    and 3: "requested_format xml_flags \<notin> {''json'', ''csv'', ''text''}"
    and 4: "requested_services xml_flags = [''EC2'']"
    by (simp_all add: xml_flags_def requested_format_def requested_services_def)
  have 5: "required_tags xml_rds_flags = Some [''owner'']"
    and 6: "requested_format xml_rds_flags \<notin> {''json'', ''csv'', ''text''}"
    and 7: "requested_services xml_rds_flags = [''rds'']"
    by (simp_all add: xml_rds_flags_def requested_format_def requested_services_def)
  have l: "LoadDefaultConfig example_aws = None"
    by (simp add: example_aws_def)
  have ec2: "AuditResources example_aws [''EC2''] [''owner''] = [?ok]"
    by (simp add: example_ec2_run)
  have rds: "AuditResources example_aws [''rds''] [''owner''] = [?ko]"
    by (simp add: example_rds_run)
  from configuration_errors [of no_flags example_aws no_encoder "[]" stdout] 1
  have a: "main example_aws no_encoder [] stdout no_flags =
     [(\<lparr>requests = [], ending = Done (Some flag_missing),
        stdout_after = Fprint stdout (flag_missing @ [newline])\<rparr>, 1)]"
    by blast
  note x = configuration_errors [of xml_flags example_aws no_encoder "[]" stdout "[''owner'']"]
  from x 2 3 have b: "main example_aws no_encoder [] stdout xml_flags \<noteq> []"
    by blast
  from x 2 3 l have "\<forall>s' \<in> set (AuditResources example_aws (requested_services xml_flags) [''owner'']).
      \<forall>rep. status s' = Returned (Inr rep) \<longrightarrow>
        (\<lparr>requests = calls s',
          ending = Done (Some (''unsupported output format: '' @ requested_format xml_flags)),
          stdout_after = stdout\<rparr>, 1) \<in> set (main example_aws no_encoder [] stdout xml_flags)"
    by blast
  then have c: "(\<lparr>requests = [DescribeInstancesInput],
     ending = Done (Some (''unsupported output format: '' @ requested_format xml_flags)),
     stdout_after = stdout\<rparr>, 1) \<in> set (main example_aws no_encoder [] stdout xml_flags)"
    unfolding 4 ec2 by simp
  have d: "list_all (\<lambda>s'. status s' = Returned (Inr \<lparr>Resources = Some [example_record [''owner'']]\<rparr>) \<and>
                   calls s' = [DescribeInstancesInput])
     (AuditResources example_aws (requested_services xml_flags) [''owner''])"
    unfolding 4 ec2 by simp
  have e: "list_all (\<lambda>(f, code). code = 1 \<and> stdout_after f = stdout \<and>
               ending f = Done (Some ''unsupported output format: xml'') \<and>
               requests f = [DescribeInstancesInput])
     (main example_aws no_encoder [] stdout xml_flags)"
    by (simp add: xml_run)
  note y = configuration_errors [of xml_rds_flags example_aws no_encoder "[]" stdout "[''owner'']"]
  from y 5 6 l have "\<forall>s' \<in> set (AuditResources example_aws (requested_services xml_rds_flags) [''owner'']).
      \<forall>e. status s' = Returned (Inl e) \<longrightarrow>
        (\<lparr>requests = calls s', ending = Done (Some (''failed to audit resources: '' @ e)),
          stdout_after = stdout\<rparr>, 1) \<in> set (main example_aws no_encoder [] stdout xml_rds_flags)"
    by blast
  then have f: "(\<lparr>requests = [DescribeDBInstancesInput],
     ending = Done (Some (''failed to audit resources: '' @ ''failed to describe RDS instances: timeout'')),
     stdout_after = stdout\<rparr>, 1) \<in> set (main example_aws no_encoder [] stdout xml_rds_flags)"
    unfolding 7 rds by simp
  have g: "list_all (\<lambda>s'. status s' = Returned (Inl ''failed to describe RDS instances: timeout'') \<and>
                   calls s' = [DescribeDBInstancesInput])
     (AuditResources example_aws (requested_services xml_rds_flags) [''owner''])"
    unfolding 7 rds by simp
  have h: "list_all (\<lambda>(f, code). code = 1 \<and> stdout_after f = stdout \<and>
               ending f = Done (Some ''failed to audit resources: failed to describe RDS instances: timeout'') \<and>
               requests f = [DescribeDBInstancesInput])
     (main example_aws no_encoder [] stdout xml_rds_flags)"
    by (simp add: xml_rds_run)
  from 1 a l 2 3 b d c e 5 6 g f h show ?thesis
    by (intro conjI)
qed

text \<open>
  C6 as stated has no provider invoked when the output format is unknown. For the format
  xml and the service EC2, \<^verbatim>\<open>DescribeInstances\<close> has been called when the error is returned.
\<close>

theorem format_checked_after_audit:
  "requested_format xml_flags \<notin> {''text'', ''json'', ''csv''} \<and>
   main example_aws no_encoder [] stdout xml_flags =
     [(\<lparr>requests = [DescribeInstancesInput],
        ending = Done (Some ''unsupported output format: xml''),
        stdout_after = stdout\<rparr>, 1)] \<and>
   Call DescribeInstancesInput \<in> set (worker example_aws [''owner''] ''EC2'')"
  by (simp add: xml_run example_ec2) (simp add: requested_format_def xml_flags_def)

subsection \<open>The CSV output\<close>

text \<open>
  C7. On a destination that takes every byte, \<^verbatim>\<open>OutputCSV\<close> returns no error and writes the
  header row followed by one row for every resource. A row has the service name, the
  resource id, the resource type, the tags as \<^verbatim>\<open>key:value\<close> joined by \<^verbatim>\<open>"; "\<close> in the order in which
  the map is visited, and the missing tags joined by \<^verbatim>\<open>"; "\<close>. \<^verbatim>\<open>encoding/csv\<close> quotes a field
  only when it has a comma, a quote, a carriage return or a line feed, starts with a space,
  or is \<^verbatim>\<open>\.\<close>; the fields of the README's record have none of these, so its row, when Name is
  visited first, is
  \<^verbatim>\<open>EC2,i-1234567890abcdef0,Instance,Name:webserver; environment:production,project; owner\<close>.
\<close>

theorem csv_output:
  "(room w = None \<longrightarrow>
      OutputCSV orders r w =
        (None, w\<lparr>written := written w @ csv_line header @
                   concat (map csv_line (csv_table (elems (Resources r)) orders))\<rparr>)) \<and>
   length (csv_table (elems (Resources r)) orders) = len (Resources r) \<and>
   csv_line header = ''Service,Resource ID,Resource Type,Tags,Missing Tags'' @ [newline] \<and>
   csv_table [resource] [order] =
     [[ServiceName resource, ResourceID resource, ResourceType resource,
       Join (map (\<lambda>k. k @ '':'' @ lookup (Tags resource) k) order) ''; '',
       Join (elems (MissingTags resource)) ''; '']] \<and>
   csv_line (csv_row [''Name'', ''environment''] (example_record [''project'', ''owner''])) =
     ''EC2,i-1234567890abcdef0,Instance,Name:webserver; environment:production,project; owner'' @ [newline]"
proof (intro conjI impI)
  assume "room w = None"
  then show "OutputCSV orders r w =
        (None, w\<lparr>written := written w @ csv_line header @
                   concat (map csv_line (csv_table (elems (Resources r)) orders))\<rparr>)"
    by (rule OutputCSV_healthy)
next
  show "length (csv_table (elems (Resources r)) orders) = len (Resources r)"
    by (simp add: csv_table_length len_def)
next
  show "csv_line header = ''Service,Resource ID,Resource Type,Tags,Missing Tags'' @ [newline]"
    by (rule header_line)
next
  show "csv_table [resource] [order] =
     [[ServiceName resource, ResourceID resource, ResourceType resource,
       Join (map (\<lambda>k. k @ '':'' @ lookup (Tags resource) k) order) ''; '',
       Join (elems (MissingTags resource)) ''; '']]"
    by (simp add: csv_row_def)
next
  show "csv_line (csv_row [''Name'', ''environment''] (example_record [''project'', ''owner''])) =
     ''EC2,i-1234567890abcdef0,Instance,Name:webserver; environment:production,project; owner'' @ [newline]"
    by (rule example_row_Name_first)
qed

text \<open>
  The report of the README's record on the standard output.
\<close>

theorem csv_output_witness:
  "room stdout = None \<and>
   visits (Tags (example_record [''project'', ''owner''])) [''Name'', ''environment''] \<and>
   OutputCSV [[''Name'', ''environment'']] example_report stdout =
     (None,
      \<lparr>written =
         ''Service,Resource ID,Resource Type,Tags,Missing Tags'' @ [newline] @
         ''EC2,i-1234567890abcdef0,Instance,Name:webserver; environment:production,project; owner'' @ [newline],
       room = None\<rparr>)"
proof -
  have r: "room stdout = None" by (simp add: stdout_def)
  have v: "visits (Tags (example_record [''project'', ''owner''])) [''Name'', ''environment'']"
    by (simp add: example_visits)
  from csv_output [of stdout "[[''Name'', ''environment'']]" example_report] r
  have "OutputCSV [[''Name'', ''environment'']] example_report stdout =
        (None, stdout\<lparr>written := written stdout @ csv_line header @
                   concat (map csv_line (csv_table (elems (Resources example_report)) [[''Name'', ''environment'']]))\<rparr>)"
    by blast
  then have "OutputCSV [[''Name'', ''environment'']] example_report stdout =
     (None,
      \<lparr>written =
         ''Service,Resource ID,Resource Type,Tags,Missing Tags'' @ [newline] @
         ''EC2,i-1234567890abcdef0,Instance,Name:webserver; environment:production,project; owner'' @ [newline],
       room = None\<rparr>)"
    by (simp add: header_line example_report_def elems_def example_row_Name_first stdout_def)
  with r v show ?thesis by blast
qed

text \<open>
  C7 as stated gives the row with its last two fields in quotes. In whichever order the two
  tags are visited, that is not what \<^verbatim>\<open>OutputCSV\<close> writes for the README's record.
\<close>

theorem csv_row_has_no_quotes:
  "\<not> (\<exists>order. visits (Tags (example_record [''project'', ''owner''])) order \<and>
        written (snd (OutputCSV [order] example_report stdout)) =
          ''Service,Resource ID,Resource Type,Tags,Missing Tags'' @ [newline] @ claimed_row @ [newline])"
proof
  assume "\<exists>order. visits (Tags (example_record [''project'', ''owner''])) order \<and>
        written (snd (OutputCSV [order] example_report stdout)) =
          ''Service,Resource ID,Resource Type,Tags,Missing Tags'' @ [newline] @ claimed_row @ [newline]"
  then obtain order where v: "visits (Tags (example_record [''project'', ''owner''])) order"
    and w: "written (snd (OutputCSV [order] example_report stdout)) =
          ''Service,Resource ID,Resource Type,Tags,Missing Tags'' @ [newline] @ claimed_row @ [newline]"
    by blast
  from v consider "order = [''Name'', ''environment'']" | "order = [''environment'', ''Name'']"
    by (auto simp: example_visits)
  then show False
  proof cases
    case 1
    with w show False
      by (simp add: example_csv header_line example_row_Name_first claimed_row_def quote_def)
  next
    case 2
    with w show False
      by (simp add: example_csv header_line example_row_environment_first claimed_row_def quote_def)
  qed
qed

subsection \<open>Two renderings of one report\<close>

text \<open>
  C8 asks that two renderings of one report give the same bytes. \<^verbatim>\<open>OutputText\<close> and
  \<^verbatim>\<open>OutputJSON\<close> are functions of the report alone (\<^verbatim>\<open>fmt\<close> and \<^verbatim>\<open>encoding/json\<close> sort the keys of
  a map). \<^verbatim>\<open>OutputCSV\<close> ranges over the map of tags, and the order of that visit is not fixed:
  the two orders for the README's record give two different outputs.
\<close>

theorem csv_depends_on_map_order:
  "visits (Tags (example_record [''project'', ''owner''])) [''Name'', ''environment''] \<and>
   visits (Tags (example_record [''project'', ''owner''])) [''environment'', ''Name''] \<and>
   OutputCSV [[''Name'', ''environment'']] example_report stdout \<noteq>
   OutputCSV [[''environment'', ''Name'']] example_report stdout"
  by (simp add: example_visits example_csv example_row_Name_first example_row_environment_first)

subsection \<open>Errors of the output\<close>

text \<open>
  C9 asks that a failed write is returned as an error and ends in a non-zero exit status,
  for the text format too. \<^verbatim>\<open>OutputText\<close> returns \<^verbatim>\<open>nil\<close> whatever its writes return. On a
  standard output that takes no byte, the first write fails, nothing is written, and the
  command still exits with status 0. (\<^verbatim>\<open>OutputCSV\<close> returns the errors of \<^verbatim>\<open>writer.Write\<close>, but
  drops that of the deferred \<^verbatim>\<open>writer.Flush()\<close>: a report of up to 4096 bytes only reaches the
  destination in that flush, so its failure is not returned either, see \<open>OutputCSV_small\<close>
  and the last line of the theorem.)
\<close>

theorem text_write_errors_are_dropped:
  "fst (OutputText r w) = None \<and>
   snd (fst (Write full_device (''AWS Resource Tag Audit Report'' @ [newline]))) =
     Some ''no space left on device'' \<and>
   main example_aws no_encoder [] full_device text_flags =
     [(\<lparr>requests = [DescribeInstancesInput], ending = Done None, stdout_after = full_device\<rparr>, 0)] \<and>
   fst (OutputCSV [[''Name'', ''environment'']] example_report full_device) = None"
proof (intro conjI)
  show "fst (OutputCSV [[''Name'', ''environment'']] example_report full_device) = None"
    by (rule example_csv_full)
next
  show "fst (OutputText r w) = None"
    by (simp add: OutputText_def Let_def)
next
  show "snd (fst (Write full_device (''AWS Resource Tag Audit Report'' @ [newline]))) =
     Some ''no space left on device''"
    by (simp add: Write_def full_device_def)
next
  have c: "LoadDefaultConfig example_aws = None"
    by (simp add: example_aws_def)
  have "AuditResources example_aws [''EC2''] [''environment'', ''project'', ''owner''] =
     [\<lparr>tasks = [[]], report = example_report, calls = [DescribeInstancesInput],
       status = Returned (Inr example_report)\<rparr>]"
    by (simp add: example_ec2_run example_report_def)
  moreover have "required_tags text_flags = Some [''environment'', ''project'', ''owner'']"
    by (simp add: text_flags_def)
  ultimately show "main example_aws no_encoder [] full_device text_flags =
     [(\<lparr>requests = [DescribeInstancesInput], ending = Done None, stdout_after = full_device\<rparr>, 0)]"
    using c
    by (simp add: main_flag_given [of text_flags "[''environment'', ''project'', ''owner'']"])
       (simp add: text_flags_def requested_services_def requested_format_def runAudit_def
        after_audit_def present_def exit_status_def OutputText_full)
qed

subsection \<open>No nil map and no nil slice in a record\<close>



end
